theory Spec2Isabelle
  imports Main "HOL-Library.Word"
begin

section \<open>Python strings and paths\<close>

text \<open>
  Python \<open>str\<close> values are modelled as \<open>string\<close>, byte buffers as lists of 8-bit words.
  The functions of this section are the library functions the storage module calls:
  \<open>str.replace\<close>, \<open>str(int)\<close>, \<open>str(uuid.UUID)\<close> and \<open>os.path.join\<close> (both the
  \<open>posixpath\<close> and the \<open>ntpath\<close> flavour, the latter as in CPython 3.11).
\<close>

type_synonym byte = "8 word"

text \<open>\<open>s.replace(old, new)\<close>: leftmost, non-overlapping occurrences, scanned left to right.
  With an empty \<open>old\<close>, Python puts \<open>new\<close> before every character and at the end.\<close>

function replace_from :: "string \<Rightarrow> string \<Rightarrow> string \<Rightarrow> string" where
  "replace_from old new [] = []"
| "replace_from old new (c # cs) =
     (if old \<noteq> [] \<and> take (length old) (c # cs) = old
      then new @ replace_from old new (drop (length old) (c # cs))
      else c # replace_from old new cs)"
  by pat_completeness auto
termination
  by (relation "measure (\<lambda>(old, new, s). length s)") auto

definition str_replace :: "string \<Rightarrow> string \<Rightarrow> string \<Rightarrow> string" where
  "str_replace old new s =
     (if old = [] then new @ concat (map (\<lambda>c. c # new) s) else replace_from old new s)"

text \<open>\<open>str(n)\<close> for a Python integer: decimal digits, a leading minus sign when negative.\<close>

function nat_digits :: "nat \<Rightarrow> string" where
  "nat_digits n =
     (if n < 10 then [''0123456789'' ! n]
      else nat_digits (n div 10) @ [''0123456789'' ! (n mod 10)])"
  by pat_completeness auto
termination
  by (relation "measure id") auto

declare nat_digits.simps [simp del]

definition str_int :: "int \<Rightarrow> string" where
  "str_int i = (if i < 0 then CHR ''-'' # nat_digits (nat (- i)) else nat_digits (nat i))"

text \<open>\<open>str(u)\<close> for a \<open>uuid.UUID\<close>: the 128-bit value as 32 lower-case hexadecimal digits
  (\<open>'%032x' % self.int\<close>), grouped 8-4-4-4-12 with hyphens.\<close>

fun hex_fixed :: "nat \<Rightarrow> nat \<Rightarrow> string" where
  "hex_fixed 0 n = []"
| "hex_fixed (Suc k) n = hex_fixed k (n div 16) @ [''0123456789abcdef'' ! (n mod 16)]"

definition uuid_str :: "128 word \<Rightarrow> string" where
  "uuid_str u =
     (let h = hex_fixed 32 (unat u)
      in take 8 h @ ''-'' @ take 4 (drop 8 h) @ ''-'' @ take 4 (drop 12 h) @ ''-''
         @ take 4 (drop 16 h) @ ''-'' @ drop 20 h)"

datatype host_os = Posix | Nt

text \<open>\<open>posixpath.join(a, *p)\<close>: a component that starts with the separator restarts the
  path; otherwise it is appended, with a separator unless the path so far is empty or
  already ends with one.\<close>

fun posix_join :: "string \<Rightarrow> string list \<Rightarrow> string" where
  "posix_join path [] = path"
| "posix_join path (b # bs) =
     posix_join
       (if take 1 b = ''/'' then b
        else if path = [] \<or> last path = CHR ''/'' then path @ b
        else path @ ''/'' @ b) bs"

text \<open>ASCII case mapping, as \<open>str.upper\<close> and \<open>str.lower\<close> act on ASCII letters.\<close>

definition ascii_upper :: "char \<Rightarrow> char" where
  "ascii_upper c =
     (if 97 \<le> (of_char c :: nat) \<and> (of_char c :: nat) \<le> 122
      then char_of ((of_char c :: nat) - 32) else c)"

definition ascii_lower :: "char \<Rightarrow> char" where
  "ascii_lower c =
     (if 65 \<le> (of_char c :: nat) \<and> (of_char c :: nat) \<le> 90
      then char_of ((of_char c :: nat) + 32) else c)"

text \<open>\<open>s.find(c, start)\<close> for a one-character \<open>c\<close>: the least index \<open>\<ge> start\<close> holding
  \<open>c\<close>; \<open>None\<close> is Python's \<open>-1\<close>.\<close>

fun find_from :: "char \<Rightarrow> nat \<Rightarrow> nat \<Rightarrow> string \<Rightarrow> nat option" where
  "find_from c start i [] = None"
| "find_from c start i (x # xs) =
     (if start \<le> i \<and> x = c then Some i else find_from c start (Suc i) xs)"

definition str_find :: "string \<Rightarrow> char \<Rightarrow> nat \<Rightarrow> nat option" where
  "str_find s c start = find_from c start 0 s"

text \<open>\<open>ntpath.splitdrive(p)\<close>: the drive or UNC share, and the rest.\<close>

definition splitdrive :: "string \<Rightarrow> string \<times> string" where
  "splitdrive p =
     (if 2 \<le> length p then
        (let normp = str_replace ''/'' [CHR 0x5C] p in
         if take 2 normp = [CHR 0x5C, CHR 0x5C] then
           (let start = (if map ascii_upper (take 8 normp)
                            = [CHR 0x5C, CHR 0x5C, CHR ''?'', CHR 0x5C,
                               CHR ''U'', CHR ''N'', CHR ''C'', CHR 0x5C]
                         then 8 else 2)
            in case str_find normp (CHR 0x5C) start of
                 None \<Rightarrow> (p, [])
               | Some index \<Rightarrow>
                   (case str_find normp (CHR 0x5C) (index + 1) of
                      None \<Rightarrow> (p, [])
                    | Some index2 \<Rightarrow> (take index2 p, drop index2 p)))
         else if take 1 (drop 1 normp) = '':'' then (take 2 p, drop 2 p)
         else ([], p))
      else ([], p))"

definition nt_seps :: "char set" where
  "nt_seps = {CHR 0x5C, CHR ''/''}"

text \<open>The loop of \<open>ntpath.join\<close> over the remaining components, carrying
  \<open>(result_drive, result_path)\<close>.\<close>

fun nt_join_loop :: "string \<times> string \<Rightarrow> string list \<Rightarrow> string \<times> string" where
  "nt_join_loop (result_drive, result_path) [] = (result_drive, result_path)"
| "nt_join_loop (result_drive, result_path) (p # ps) =
     (let (p_drive, p_path) = splitdrive p in
      if p_path \<noteq> [] \<and> hd p_path \<in> nt_seps then
        nt_join_loop
          (if p_drive \<noteq> [] \<or> result_drive = [] then p_drive else result_drive, p_path) ps
      else if p_drive \<noteq> [] \<and> p_drive \<noteq> result_drive
              \<and> map ascii_lower p_drive \<noteq> map ascii_lower result_drive then
        nt_join_loop (p_drive, p_path) ps
      else
        (let result_drive' =
               (if p_drive \<noteq> [] \<and> p_drive \<noteq> result_drive then p_drive else result_drive);
             result_path' =
               (if result_path \<noteq> [] \<and> last result_path \<notin> nt_seps
                then result_path @ [CHR 0x5C] else result_path)
         in nt_join_loop (result_drive', result_path' @ p_path) ps))"

definition nt_join :: "string \<Rightarrow> string list \<Rightarrow> string" where
  "nt_join path paths =
     (let (result_drive, result_path) = nt_join_loop (splitdrive path) paths in
      if result_path \<noteq> [] \<and> hd result_path \<notin> nt_seps
         \<and> result_drive \<noteq> [] \<and> last result_drive \<noteq> CHR '':''
      then result_drive @ [CHR 0x5C] @ result_path
      else result_drive @ result_path)"

text \<open>\<open>os.path.join\<close> on the host the service runs on.\<close>

definition os_path_join :: "host_os \<Rightarrow> string \<Rightarrow> string list \<Rightarrow> string" where
  "os_path_join h path paths =
     (case h of Posix \<Rightarrow> posix_join path paths | Nt \<Rightarrow> nt_join path paths)"

section \<open>The file a path names\<close>

text \<open>
  Two spellings can name one file. The disk of the model is therefore not keyed by the
  path string but by the location it names, as \<open>os.path.normpath\<close> and \<open>os.path.normcase\<close>
  spell it: whether the path starts at the root, and its components, where empty and
  \<open>.\<close> components are dropped and a \<open>..\<close> component cancels the one before it. Under
  \<open>ntpath\<close> both separators separate and letter case does not count. A drive letter or
  share prefix counts as an ordinary component, and neither symbolic links nor the
  working directory are modelled: a path that does not start at the root names a
  location relative to the working directory, whatever that is.
\<close>

definition seps :: "host_os \<Rightarrow> char set" where
  "seps h = (case h of Posix \<Rightarrow> {CHR ''/''} | Nt \<Rightarrow> nt_seps)"

text \<open>The pieces of a string between separators (the result is never empty).\<close>

fun split_at :: "char set \<Rightarrow> string \<Rightarrow> string list" where
  "split_at S [] = [[]]"
| "split_at S (c # cs) =
     (if c \<in> S then [] # split_at S cs
      else case split_at S cs of [] \<Rightarrow> [[c]] | x # xs \<Rightarrow> (c # x) # xs)"

definition pieces :: "host_os \<Rightarrow> string \<Rightarrow> string list" where
  "pieces h p = filter (\<lambda>x. x \<noteq> [] \<and> x \<noteq> ''.'') (split_at (seps h) p)"

text \<open>The loop of \<open>normpath\<close> over the components: \<open>acc\<close> holds, last first, the components
  kept so far.\<close>

fun dotdot :: "bool \<Rightarrow> string list \<Rightarrow> string list \<Rightarrow> string list" where
  "dotdot rooted acc [] = rev acc"
| "dotdot rooted acc (x # xs) =
     (if x = ''..'' then
        (case acc of
           [] \<Rightarrow> dotdot rooted (if rooted then [] else [x]) xs
         | a # as \<Rightarrow> if a = ''..'' then dotdot rooted (x # a # as) xs else dotdot rooted as xs)
      else dotdot rooted (x # acc) xs)"

type_synonym location = "bool \<times> string list"

definition location :: "host_os \<Rightarrow> string \<Rightarrow> location" where
  "location h p =
     (let rooted = (p \<noteq> [] \<and> hd p \<in> seps h);
          ps = (case h of Posix \<Rightarrow> pieces h p | Nt \<Rightarrow> map (map ascii_lower) (pieces h p))
      in (rooted, dotdot rooted [] ps))"

section \<open>Configuration, records and failures\<close>

text \<open>\<open>Settings\<close> of \<open>database.py\<close>; \<open>User\<close> of \<open>models.py\<close>.\<close>

record Settings =
  DATABASE_URL :: string
  UPLOAD_DIR :: string
  MAX_AVATAR_SIZE :: int
  BASE_URL :: string

record User =
  id' :: int
  username :: string
  avatar_path :: "string option"

text \<open>
  The source raises \<open>HTTPException(status_code, detail)\<close> with a message text; the texts are
  told apart here by a constructor each, named by what the message says:
  \<^item> \<open>UserNotFound\<close>: main.py lines 67, 114, 137 (status 404);
  \<^item> \<open>ReadFailure\<close>: main.py line 73 (status 500);
  \<^item> \<open>PayloadTooLarge\<close>: storage.py line 34 (status 400);
  \<^item> \<open>TypeSniffFailure\<close>: storage.py line 43 (status 400);
  \<^item> \<open>UnsupportedMediaType\<close>, with the sniffed type: storage.py line 46 (status 400);
  \<^item> \<open>WriteFailure\<close>: storage.py line 76 (status 500);
  \<^item> \<open>DeleteFailure\<close>: storage.py line 91 (status 500);
  \<^item> \<open>NotFound\<close>: storage.py line 93, the avatar file does not exist (status 404);
  \<^item> \<open>PersistenceFailure\<close>: main.py line 93 (status 500);
  \<^item> \<open>NoAvatar\<close>: main.py line 139 (status 400).
  An exception the handlers do not catch reaches the framework as \<open>Uncaught\<close>.
\<close>

datatype detail =
    UserNotFound
  | ReadFailure
  | PayloadTooLarge
  | TypeSniffFailure
  | UnsupportedMediaType string
  | WriteFailure
  | DeleteFailure
  | NotFound
  | PersistenceFailure
  | NoAvatar

datatype exc = OSError | DatabaseError

datatype failure = HTTPException nat detail | Uncaught exc

datatype response =
    AvatarUploaded int "string option" string
  | AvatarDeleted int

text \<open>The status the framework answers with: 200 for a returned value, the exception's
  status for an \<open>HTTPException\<close>, 500 for any other exception.\<close>

fun http_status :: "failure + response \<Rightarrow> nat" where
  "http_status (Inr r) = 200"
| "http_status (Inl (HTTPException code d)) = code"
| "http_status (Inl (Uncaught x)) = 500"

section \<open>The disk, the user table and the environment\<close>

text \<open>
  The state a request acts on: the regular files and the directories known to exist, by
  location; the rows of the user table by primary key; and the log of the mutating calls
  made so far, each with the path string it was given (a call is logged when it is made,
  whether or not it then raises).
\<close>

datatype event =
    MkDirs string
  | WriteFile string
  | RemoveFile string
  | Commit int "string option"

record world =
  files :: "location \<rightharpoonup> byte list"
  dirs :: "location set"
  users :: "int \<rightharpoonup> User"
  trace :: "event list"

text \<open>
  What the handlers take from outside: the host's path flavour, the settings, the content
  sniffer \<open>magic.from_buffer(_, mime=True)\<close> (\<open>Inl\<close> when it raises), the integers the
  database accepts as a key (for SQLite those of 64 bits, signed), and for every other
  system or database call whether it raises. \<open>write_raises p = Some n\<close> says that writing
  to the opened file \<open>p\<close> raises after \<open>n\<close> bytes have reached it.
\<close>

record env =
  host :: host_os
  settings :: Settings
  magic_from_buffer :: "byte list \<Rightarrow> string + string"
  key_in_range :: "int \<Rightarrow> bool"
  makedirs_raises :: "string \<Rightarrow> bool"
  open_raises :: "string \<Rightarrow> bool"
  write_raises :: "string \<Rightarrow> nat option"
  remove_raises :: "string \<Rightarrow> bool"
  commit_raises :: bool
  refresh_raises :: bool

record UploadFile =
  filename :: string
  content_type :: string
  file_read :: "string + byte list"

text \<open>The location a path names on the host of \<open>e\<close>.\<close>

definition loc :: "env \<Rightarrow> string \<Rightarrow> location" where
  "loc e p = location (host e) p"

definition os_path_exists :: "env \<Rightarrow> world \<Rightarrow> string \<Rightarrow> bool" where
  "os_path_exists e w p = (files w (loc e p) \<noteq> None \<or> loc e p \<in> dirs w)"

text \<open>\<open>os.makedirs(p, exist_ok=True)\<close>: raises when a regular file is in the way.\<close>

definition os_makedirs :: "env \<Rightarrow> string \<Rightarrow> world \<Rightarrow> (exc + unit) \<times> world" where
  "os_makedirs e p w =
     (let w1 = w\<lparr>trace := trace w @ [MkDirs p]\<rparr> in
      if makedirs_raises e p \<or> files w (loc e p) \<noteq> None then (Inl OSError, w1)
      else (Inr (), w1\<lparr>dirs := insert (loc e p) (dirs w)\<rparr>))"

text \<open>\<open>with open(p, "wb") as f: f.write(content)\<close>: opening raises on a directory;
  a write that raises leaves the bytes written so far.\<close>

definition open_write :: "env \<Rightarrow> string \<Rightarrow> byte list \<Rightarrow> world \<Rightarrow> (exc + unit) \<times> world" where
  "open_write e p content w =
     (let w1 = w\<lparr>trace := trace w @ [WriteFile p]\<rparr> in
      if open_raises e p \<or> loc e p \<in> dirs w then (Inl OSError, w1)
      else case write_raises e p of
             Some n \<Rightarrow> (Inl OSError, w1\<lparr>files := (files w)(loc e p \<mapsto> take n content)\<rparr>)
           | None \<Rightarrow> (Inr (), w1\<lparr>files := (files w)(loc e p \<mapsto> content)\<rparr>))"

text \<open>\<open>os.remove(p)\<close>: raises unless \<open>p\<close> names a regular file that can be removed.\<close>

definition os_remove :: "env \<Rightarrow> string \<Rightarrow> world \<Rightarrow> (exc + unit) \<times> world" where
  "os_remove e p w =
     (let w1 = w\<lparr>trace := trace w @ [RemoveFile p]\<rparr> in
      if remove_raises e p \<or> files w (loc e p) = None then (Inl OSError, w1)
      else (Inr (), w1\<lparr>files := (files w)(loc e p := None)\<rparr>))"

text \<open>\<open>session.get(User, k)\<close>: the row with primary key \<open>k\<close>, if there is one. A key outside
  the integers the database accepts has no row, and the look-up of such a key raises (the
  driver cannot bind it).\<close>

definition session_get :: "env \<Rightarrow> int \<Rightarrow> world \<Rightarrow> exc + User option" where
  "session_get e k w =
     (case users w k of
        Some user \<Rightarrow> Inr (Some user)
      | None \<Rightarrow> if key_in_range e k then Inr None else Inl DatabaseError)"

text \<open>\<open>session.add(user); session.commit()\<close> and \<open>session.refresh(user)\<close> for the row
  with primary key \<open>k\<close>.\<close>

definition session_commit :: "env \<Rightarrow> int \<Rightarrow> User \<Rightarrow> world \<Rightarrow> (exc + unit) \<times> world" where
  "session_commit e k user w =
     (let w1 = w\<lparr>trace := trace w @ [Commit k (avatar_path user)]\<rparr> in
      if commit_raises e then (Inl DatabaseError, w1)
      else (Inr (), w1\<lparr>users := (users w)(k \<mapsto> user)\<rparr>))"

definition session_refresh :: "env \<Rightarrow> int \<Rightarrow> world \<Rightarrow> exc + User" where
  "session_refresh e k w =
     (if refresh_raises e then Inl DatabaseError
      else case users w k of None \<Rightarrow> Inl DatabaseError | Some user \<Rightarrow> Inr user)"

section \<open>storage.py: LocalAvatarStorage\<close>

definition allowed_mime_types :: "string set" where
  "allowed_mime_types = {''image/jpeg'', ''image/png'', ''image/gif'', ''image/jpg''}"

definition mime_to_ext :: "string \<rightharpoonup> string" where
  "mime_to_ext =
     [''image/jpeg'' \<mapsto> ''jpg'', ''image/png'' \<mapsto> ''png'',
      ''image/gif'' \<mapsto> ''gif'', ''image/jpg'' \<mapsto> ''jpg'']"

definition validate_file :: "env \<Rightarrow> byte list \<Rightarrow> failure + string" where
  "validate_file e file_content =
     (if int (length file_content) > MAX_AVATAR_SIZE (settings e)
      then Inl (HTTPException 400 PayloadTooLarge)
      else case magic_from_buffer e file_content of
             Inl msg \<Rightarrow> Inl (HTTPException 400 TypeSniffFailure)
           | Inr mime_type \<Rightarrow>
               if mime_type \<notin> allowed_mime_types
               then Inl (HTTPException 400 (UnsupportedMediaType mime_type))
               else Inr mime_type)"

text \<open>\<open>upload_avatar(user_id, file_content)\<close>; \<open>u\<close> is the value \<open>uuid.uuid4()\<close> draws.\<close>

definition upload_avatar ::
  "env \<Rightarrow> int \<Rightarrow> byte list \<Rightarrow> 128 word \<Rightarrow> world \<Rightarrow> (failure + string) \<times> world" where
  "upload_avatar e user_id file_content u w =
     (case validate_file e file_content of
        Inl err \<Rightarrow> (Inl err, w)
      | Inr mime_type \<Rightarrow>
          (let file_ext = (case mime_to_ext mime_type of Some x \<Rightarrow> x | None \<Rightarrow> ''jpg'');
               user_dir = os_path_join (host e) (UPLOAD_DIR (settings e)) [str_int user_id]
           in case os_makedirs e user_dir w of
                (Inl x, w1) \<Rightarrow> (Inl (Uncaught x), w1)
              | (Inr _, w1) \<Rightarrow>
                  (let file_name = uuid_str u @ ''.'' @ file_ext;
                       file_path = os_path_join (host e) user_dir [file_name]
                   in case open_write e file_path file_content w1 of
                        (Inl x, w2) \<Rightarrow> (Inl (HTTPException 500 WriteFailure), w2)
                      | (Inr _, w2) \<Rightarrow>
                          (Inr (str_replace [CHR 0x5C] ''/''
                                  (os_path_join (host e) ''avatars''
                                     [str_int user_id, file_name])), w2))))"

definition delete_avatar :: "env \<Rightarrow> string \<Rightarrow> world \<Rightarrow> (failure + unit) \<times> world" where
  "delete_avatar e relative_path w =
     (let abs_path = os_path_join (host e)
                       (str_replace ''avatars'' [] (UPLOAD_DIR (settings e)))
                       [relative_path]
      in if os_path_exists e w abs_path then
           (case os_remove e abs_path w of
              (Inl x, w1) \<Rightarrow> (Inl (HTTPException 500 DeleteFailure), w1)
            | (Inr _, w1) \<Rightarrow> (Inr (), w1))
         else (Inl (HTTPException 404 NotFound), w))"

definition get_avatar_url :: "env \<Rightarrow> string \<Rightarrow> string" where
  "get_avatar_url e relative_path = BASE_URL (settings e) @ ''/static/'' @ relative_path"

section \<open>main.py: the avatar endpoints\<close>

text \<open>Python's truth value of an optional string, and its rendering in an f-string.\<close>

fun truthy :: "string option \<Rightarrow> bool" where
  "truthy None = False"
| "truthy (Some s) = (s \<noteq> [])"

fun fmt :: "string option \<Rightarrow> string" where
  "fmt None = ''None''"
| "fmt (Some s) = s"

text \<open>Lines 85 to 93 of \<open>upload_user_avatar\<close>: the update of the row inside \<open>try\<close>; when it
  raises, the new file is deleted and status 500 raised.\<close>

definition persist_new_path ::
  "env \<Rightarrow> int \<Rightarrow> User \<Rightarrow> string \<Rightarrow> world \<Rightarrow> (failure + User) \<times> world" where
  "persist_new_path e user_id user new_avatar_path w =
     (let attempt =
            (case session_commit e user_id (user\<lparr>avatar_path := Some new_avatar_path\<rparr>) w of
               (Inl x, w1) \<Rightarrow> (Inl x, w1)
             | (Inr _, w1) \<Rightarrow> (session_refresh e user_id w1, w1))
      in case attempt of
           (Inr user', w1) \<Rightarrow> (Inr user', w1)
         | (Inl x, w1) \<Rightarrow>
             (case delete_avatar e new_avatar_path w1 of
                (Inl err, w2) \<Rightarrow> (Inl err, w2)
              | (Inr _, w2) \<Rightarrow> (Inl (HTTPException 500 PersistenceFailure), w2)))"

definition upload_user_avatar ::
  "env \<Rightarrow> int \<Rightarrow> UploadFile \<Rightarrow> 128 word \<Rightarrow> world \<Rightarrow> (failure + response) \<times> world" where
  "upload_user_avatar e user_id file u w =
     (case session_get e user_id w of
        Inl x \<Rightarrow> (Inl (Uncaught x), w)
      | Inr None \<Rightarrow> (Inl (HTTPException 404 UserNotFound), w)
      | Inr (Some user) \<Rightarrow>
          (case file_read file of
             Inl msg \<Rightarrow> (Inl (HTTPException 500 ReadFailure), w)
           | Inr file_content \<Rightarrow>
               (case upload_avatar e user_id file_content u w of
                  (Inl err, w1) \<Rightarrow> (Inl err, w1)
                | (Inr new_avatar_path, w1) \<Rightarrow>
                    (case (if truthy (avatar_path user)
                           then delete_avatar e (fmt (avatar_path user)) w1
                           else (Inr (), w1)) of
                       (Inl err, w2) \<Rightarrow> (Inl err, w2)
                     | (Inr _, w2) \<Rightarrow>
                         (case persist_new_path e user_id user new_avatar_path w2 of
                            (Inl err, w3) \<Rightarrow> (Inl err, w3)
                          | (Inr user', w3) \<Rightarrow>
                              (Inr (AvatarUploaded user_id (avatar_path user')
                                      (get_avatar_url e (fmt (avatar_path user')))),
                               w3))))))"


section \<open>Names for the paths the storage module computes\<close>

text \<open>The values of the local variables \<open>user_dir\<close> and \<open>file_path\<close> of \<open>upload_avatar\<close>, of
  its returned relative path, and of \<open>abs_path\<close> of \<open>delete_avatar\<close>.\<close>

definition user_dir_of :: "env \<Rightarrow> int \<Rightarrow> string" where
  "user_dir_of e user_id = os_path_join (host e) (UPLOAD_DIR (settings e)) [str_int user_id]"

definition file_path_of :: "env \<Rightarrow> int \<Rightarrow> 128 word \<Rightarrow> string \<Rightarrow> string" where
  "file_path_of e user_id u file_ext =
     os_path_join (host e) (user_dir_of e user_id) [uuid_str u @ ''.'' @ file_ext]"

definition relative_path_of :: "env \<Rightarrow> int \<Rightarrow> 128 word \<Rightarrow> string \<Rightarrow> string" where
  "relative_path_of e user_id u file_ext =
     str_replace [CHR 0x5C] ''/''
       (os_path_join (host e) ''avatars'' [str_int user_id, uuid_str u @ ''.'' @ file_ext])"

definition abs_path_of :: "env \<Rightarrow> string \<Rightarrow> string" where
  "abs_path_of e relative_path =
     os_path_join (host e) (str_replace ''avatars'' [] (UPLOAD_DIR (settings e)))
       [relative_path]"

text \<open>\<open>pat in s\<close> for Python strings.\<close>

fun occurs :: "string \<Rightarrow> string \<Rightarrow> bool" where
  "occurs pat [] = (pat = [])"
| "occurs pat (c # cs) = (take (length pat) (c # cs) = pat \<or> occurs pat cs)"

text \<open>A path component that holds no separator and no drive colon.\<close>

definition plain :: "string \<Rightarrow> bool" where
  "plain s = (CHR ''/'' \<notin> set s \<and> CHR 0x5C \<notin> set s \<and> CHR '':'' \<notin> set s)"

text \<open>A proper path component: plain, not empty, and neither \<open>.\<close> nor \<open>..\<close>.\<close>

definition component :: "string \<Rightarrow> bool" where
  "component s = (plain s \<and> s \<noteq> [] \<and> s \<noteq> ''.'' \<and> s \<noteq> ''..'')"


text \<open>A component that \<open>os.path.join\<close> appends to what precedes it: under \<open>posixpath\<close> one
  that does not start with the separator; under \<open>ntpath\<close> a non-empty one without a drive
  that does not start with a separator.\<close>

definition relative_to_root :: "host_os \<Rightarrow> string \<Rightarrow> bool" where
  "relative_to_root h rel =
     (case h of
        Posix \<Rightarrow> take 1 rel \<noteq> ''/''
      | Nt \<Rightarrow> splitdrive rel = ([], rel) \<and> rel \<noteq> [] \<and> hd rel \<notin> nt_seps)"

section \<open>An example deployment\<close>

text \<open>A stand-in for the content sniffer, which knows the PNG, JPEG and GIF signatures,
  and the settings of a development setup on a POSIX host with an SQLite database, where
  no call raises.\<close>

definition example_magic :: "byte list \<Rightarrow> string + string" where
  "example_magic bs =
     (if take 8 bs = [0x89, 0x50, 0x4E, 0x47, 0x0D, 0x0A, 0x1A, 0x0A] then Inr ''image/png''
      else if take 3 bs = [0xFF, 0xD8, 0xFF] then Inr ''image/jpeg''
      else if take 4 bs = [0x47, 0x49, 0x46, 0x38] then Inr ''image/gif''
      else if bs = [] then Inr ''application/x-empty''
      else Inr ''text/plain'')"

definition example_settings :: Settings where
  "example_settings =
     \<lparr>DATABASE_URL = ''sqlite:///./avatar.db'', UPLOAD_DIR = ''uploads/avatars'',
      MAX_AVATAR_SIZE = 16, BASE_URL = ''http://127.0.0.1:8000''\<rparr>"

definition example_env :: env where
  "example_env =
     \<lparr>host = Posix, settings = example_settings, magic_from_buffer = example_magic,
      key_in_range = (\<lambda>k. - (2 ^ 63) \<le> k \<and> k < 2 ^ 63),
      makedirs_raises = (\<lambda>p. False), open_raises = (\<lambda>p. False),
      write_raises = (\<lambda>p. None), remove_raises = (\<lambda>p. False),
      commit_raises = False, refresh_raises = False\<rparr>"

definition example_png :: "byte list" where
  "example_png = [0x89, 0x50, 0x4E, 0x47, 0x0D, 0x0A, 0x1A, 0x0A, 0x00, 0x00]"

definition example_text :: "byte list" where
  "example_text = [0x68, 0x65, 0x6C, 0x6C, 0x6F, 0x20, 0x77, 0x6F, 0x72, 0x6C]"

definition example_file :: "byte list \<Rightarrow> UploadFile" where
  "example_file bs = \<lparr>filename = ''a.png'', content_type = ''image/png'', file_read = Inr bs\<rparr>"

text \<open>Users 7 (no avatar yet) and 8 (an avatar on record and on disk).\<close>

definition example_world :: world where
  "example_world =
     \<lparr>files = [(False, [''uploads'', ''avatars'', ''8'', ''old.png'']) \<mapsto> example_png],
      dirs = {(False, [''uploads'']), (False, [''uploads'', ''avatars'']),
              (False, [''uploads'', ''avatars'', ''8''])},
      users = [7 \<mapsto> \<lparr>id' = 7, username = ''alice'', avatar_path = None\<rparr>,
               8 \<mapsto> \<lparr>id' = 8, username = ''bob'',
                      avatar_path = Some ''avatars/8/old.png''\<rparr>],
      trace = []\<rparr>"
section \<open>Facts about the string and path functions\<close>

lemma replace_from_single:
  "replace_from [c] [d] s = map (\<lambda>x. if x = c then d else x) s"
  by (induction s) auto

lemma replace_from_absent:
  "c \<notin> set s \<Longrightarrow> replace_from [c] new s = s"
  by (induction s) auto

lemma nat_digits_chars: "set (nat_digits n) \<subseteq> set ''0123456789''"
proof (induction n rule: nat_digits.induct)
  case (1 n)
  have m: "''0123456789'' ! (n mod 10) \<in> set ''0123456789''"
    by (rule nth_mem) simp
  show ?case
  proof (cases "n < 10")
    case True
    then have "''0123456789'' ! n \<in> set ''0123456789''"
      by (intro nth_mem) simp
    with True show ?thesis by (subst nat_digits.simps) simp
  next
    case False
    with 1 m show ?thesis by (subst nat_digits.simps) simp
  qed
qed

lemma nat_digits_nonempty: "nat_digits n \<noteq> []"
  by (subst nat_digits.simps) simp

lemma nat_digits_plain: "plain (nat_digits n)"
  using nat_digits_chars [of n] by (auto simp: plain_def)

lemma str_int_plain: "plain (str_int i)"
  using nat_digits_plain [of "nat i"] nat_digits_plain [of "nat (- i)"]
  by (simp add: str_int_def plain_def)

lemma str_int_nonempty: "str_int i \<noteq> []"
  by (simp add: str_int_def nat_digits_nonempty)

lemma hex_fixed_chars: "set (hex_fixed k n) \<subseteq> set ''0123456789abcdef''"
proof (induction k arbitrary: n)
  case 0
  show ?case by simp
next
  case (Suc k)
  have "''0123456789abcdef'' ! (n mod 16) \<in> set ''0123456789abcdef''"
    by (rule nth_mem) simp
  with Suc [of "n div 16"] show ?case by simp
qed

lemma hex_fixed_plain: "plain (hex_fixed k n)"
  using hex_fixed_chars [of k n] by (auto simp: plain_def)

lemma plain_take: "plain s \<Longrightarrow> plain (take k s)"
  by (auto simp: plain_def dest: in_set_takeD)

lemma plain_drop: "plain s \<Longrightarrow> plain (drop k s)"
  by (auto simp: plain_def dest: in_set_dropD)

lemma plain_append: "plain (s @ t) = (plain s \<and> plain t)"
  by (auto simp: plain_def)

lemma uuid_str_plain: "plain (uuid_str u)"
proof -
  have h: "plain (hex_fixed 32 (unat u))" by (rule hex_fixed_plain)
  have d: "plain ''-''" by (simp add: plain_def)
  show ?thesis
    unfolding uuid_str_def Let_def plain_append
    using d by (intro conjI plain_take plain_drop h)
qed

lemma uuid_str_nonempty: "uuid_str u \<noteq> []"
  by (simp add: uuid_str_def Let_def)

lemma plain_hd: "plain s \<Longrightarrow> s \<noteq> [] \<Longrightarrow> hd s \<noteq> CHR ''/'' \<and> hd s \<noteq> CHR 0x5C"
  by (cases s) (auto simp: plain_def)

lemma plain_last:
  assumes "plain s" "s \<noteq> []"
  shows "last s \<noteq> CHR ''/'' \<and> last s \<noteq> CHR 0x5C"
proof -
  have "last s \<in> set s" using assms(2) by simp
  with assms(1) show ?thesis by (auto simp: plain_def)
qed

lemma splitdrive_plain:
  assumes "plain s"
  shows "splitdrive s = ([], s)"
proof -
  have n: "str_replace ''/'' [CHR 0x5C] s = s"
    using assms by (simp add: str_replace_def replace_from_absent plain_def)
  have a: "take 2 s \<noteq> [CHR 0x5C, CHR 0x5C]"
  proof
    assume "take 2 s = [CHR 0x5C, CHR 0x5C]"
    then have "CHR 0x5C \<in> set (take 2 s)" by simp
    then show False using assms by (auto simp: plain_def dest: in_set_takeD)
  qed
  have b: "take 1 (drop 1 s) \<noteq> '':''"
  proof
    assume "take 1 (drop 1 s) = '':''"
    then have "CHR '':'' \<in> set (take 1 (drop 1 s))" by simp
    then show False using assms by (auto simp: plain_def dest: in_set_takeD in_set_dropD)
  qed
  show ?thesis using a b by (simp add: splitdrive_def n)
qed

lemma nt_join_plain:
  assumes "plain a" "a \<noteq> []" "plain b" "b \<noteq> []" "plain c" "c \<noteq> []"
  shows "nt_join a [b, c] = a @ [CHR 0x5C] @ b @ [CHR 0x5C] @ c"
  using plain_hd [OF assms(3,4)] plain_hd [OF assms(5,6)]
    plain_last [OF assms(1,2)] plain_last [OF assms(3,4)] assms(2,4,6)
  by (simp add: nt_join_def splitdrive_plain [OF assms(1)] splitdrive_plain [OF assms(3)]
      splitdrive_plain [OF assms(5)] nt_seps_def)

lemma posix_join_plain:
  assumes "plain a" "a \<noteq> []" "plain b" "b \<noteq> []" "plain c" "c \<noteq> []"
  shows "posix_join a [b, c] = a @ ''/'' @ b @ ''/'' @ c"
proof -
  have b1: "take 1 b \<noteq> ''/''" using plain_hd [OF assms(3,4)] assms(4) by (cases b) auto
  have c1: "take 1 c \<noteq> ''/''" using plain_hd [OF assms(5,6)] assms(6) by (cases c) auto
  show ?thesis
    using plain_last [OF assms(1,2)] plain_last [OF assms(3,4)] assms(2,4) b1 c1
    by simp
qed

lemma relative_path_shape:
  assumes "plain x" "x \<noteq> []"
  shows "relative_path_of e user_id u x =
           ''avatars/'' @ str_int user_id @ ''/'' @ uuid_str u @ ''.'' @ x"
proof -
  let ?f = "uuid_str u @ ''.'' @ x"
  have pa: "plain ''avatars''" by (simp add: plain_def)
  have pf: "plain ?f" using assms(1) uuid_str_plain [of u] by (simp add: plain_def)
  have nf: "?f \<noteq> []" by simp
  have nb: "CHR 0x5C \<notin> set (str_int user_id)" "CHR 0x5C \<notin> set ?f"
    using str_int_plain [of user_id] pf by (simp_all add: plain_def)
  show ?thesis
  proof (cases "host e")
    case Posix
    then show ?thesis
      using nb posix_join_plain [OF pa _ str_int_plain str_int_nonempty pf nf, of user_id]
      by (simp add: relative_path_of_def os_path_join_def str_replace_def replace_from_absent)
  next
    case Nt
    have m1: "map (\<lambda>c. if c = CHR 0x5C then CHR ''/'' else c) (str_int user_id) = str_int user_id"
      using nb(1) by (intro map_idI) auto
    have m2: "map (\<lambda>c. if c = CHR 0x5C then CHR ''/'' else c) ?f = ?f"
      using nb(2) by (intro map_idI) auto
    from Nt show ?thesis
      using nt_join_plain [OF pa _ str_int_plain str_int_nonempty pf nf, of user_id] m1 m2
      by (simp add: relative_path_of_def os_path_join_def str_replace_def replace_from_single)
  qed
qed

section \<open>Facts about locations\<close>

lemma split_at_nonempty: "split_at S p \<noteq> []"
  by (induction p) (auto split: list.splits)

lemma split_at_append:
  "c \<in> S \<Longrightarrow> split_at S (a @ c # b) = split_at S a @ split_at S b"
proof (induction a)
  case Nil
  then show ?case by simp
next
  case (Cons x a)
  obtain y ys where y: "split_at S a = y # ys"
    using split_at_nonempty [of S a] by (cases "split_at S a") auto
  with Cons show ?case by simp
qed

lemma split_at_whole: "set s \<inter> S = {} \<Longrightarrow> split_at S s = [s]"
  by (induction s) auto

lemma pieces_Nil: "pieces h [] = []"
  by (simp add: pieces_def)

lemma pieces_append:
  "c \<in> seps h \<Longrightarrow> pieces h (a @ c # b) = pieces h a @ pieces h b"
  by (simp add: pieces_def split_at_append)

lemma plain_seps: "plain s \<Longrightarrow> set s \<inter> seps h = {}"
  by (cases h) (auto simp: plain_def seps_def nt_seps_def)

lemma pieces_component: "component s \<Longrightarrow> pieces h s = [s]"
  using plain_seps [of s h] by (simp add: pieces_def component_def split_at_whole)

lemma slash_sep: "CHR ''/'' \<in> seps h"
  by (cases h) (simp_all add: seps_def nt_seps_def)

lemma location_eqI:
  assumes "pieces h p = pieces h q"
    and "(p \<noteq> [] \<and> hd p \<in> seps h) = (q \<noteq> [] \<and> hd q \<in> seps h)"
  shows "location h p = location h q"
  unfolding location_def Let_def assms(1) using assms(2) by simp

lemma dotdot_snoc:
  "x \<noteq> ''..'' \<Longrightarrow> dotdot r acc (xs @ [x]) = dotdot r acc xs @ [x]"
  by (induction r acc xs rule: dotdot.induct) (auto split: list.splits)

lemma dotdot_none:
  "''..'' \<notin> set xs \<Longrightarrow> dotdot r acc xs = rev acc @ xs"
  by (induction r acc xs rule: dotdot.induct) auto

lemma str_int_nodot: "CHR ''.'' \<notin> set (str_int i)"
  using nat_digits_chars [of "nat i"] nat_digits_chars [of "nat (- i)"]
  by (auto simp: str_int_def)

lemma uuid_str_nodot: "CHR ''.'' \<notin> set (uuid_str u)"
proof -
  have h: "CHR ''.'' \<notin> set (hex_fixed 32 (unat u))"
    using hex_fixed_chars [of 32 "unat u"] by auto
  then have t: "CHR ''.'' \<notin> set (take k (hex_fixed 32 (unat u)))" for k
    by (auto dest: in_set_takeD)
  from h have d: "CHR ''.'' \<notin> set (drop k (hex_fixed 32 (unat u)))" for k
    by (auto dest: in_set_dropD)
  from d have td: "CHR ''.'' \<notin> set (take k (drop j (hex_fixed 32 (unat u))))" for k j
    by (auto dest: in_set_takeD)
  show ?thesis
    unfolding uuid_str_def Let_def set_append using t td d by simp
qed

lemma component_str_int: "component (str_int i)"
proof -
  have "str_int i \<noteq> ''.''" "str_int i \<noteq> ''..''"
    using str_int_nodot [of i] by auto
  then show ?thesis
    by (simp add: component_def str_int_plain str_int_nonempty)
qed

lemma component_file_name:
  assumes "plain x"
  shows "component (uuid_str u @ ''.'' @ x)"
proof -
  obtain c cs where c: "uuid_str u = c # cs"
    using uuid_str_nonempty [of u] by (cases "uuid_str u") auto
  then have "c \<noteq> CHR ''.''" using uuid_str_nodot [of u] by auto
  with c have "uuid_str u @ ''.'' @ x \<noteq> ''.''" "uuid_str u @ ''.'' @ x \<noteq> ''..''"
    by auto
  moreover have "plain (uuid_str u @ ''.'' @ x)"
    using assms uuid_str_plain [of u] by (simp add: plain_def)
  ultimately show ?thesis by (simp add: component_def)
qed

section \<open>Facts about the storage module\<close>

lemma validate_file_Inr:
  "validate_file e bs = Inr m \<longleftrightarrow>
     int (length bs) \<le> MAX_AVATAR_SIZE (settings e) \<and> magic_from_buffer e bs = Inr m
     \<and> m \<in> allowed_mime_types"
  by (auto simp: validate_file_def split: sum.splits)

lemma allowed_mime_ext:
  "m \<in> allowed_mime_types \<Longrightarrow>
     \<exists>x. mime_to_ext m = Some x \<and> x \<in> {''jpg'', ''png'', ''gif''}"
  by (auto simp: allowed_mime_types_def mime_to_ext_def)

lemma ext_plain: "x \<in> {''jpg'', ''png'', ''gif''} \<Longrightarrow> plain x \<and> x \<noteq> []"
  by (auto simp: plain_def)

lemma upload_avatar_unfold:
  "upload_avatar e user_id bs u w =
     (case validate_file e bs of
        Inl err \<Rightarrow> (Inl err, w)
      | Inr m \<Rightarrow>
          (let x = (case mime_to_ext m of Some x \<Rightarrow> x | None \<Rightarrow> ''jpg'');
               ud = user_dir_of e user_id;
               fp = file_path_of e user_id u x;
               w1 = w\<lparr>trace := trace w @ [MkDirs ud]\<rparr>;
               w2 = w\<lparr>trace := trace w @ [MkDirs ud, WriteFile fp],
                     dirs := insert (loc e ud) (dirs w)\<rparr>
           in if makedirs_raises e ud \<or> files w (loc e ud) \<noteq> None
              then (Inl (Uncaught OSError), w1)
              else if open_raises e fp \<or> loc e fp \<in> insert (loc e ud) (dirs w)
                   then (Inl (HTTPException 500 WriteFailure), w2)
              else case write_raises e fp of
                     Some n \<Rightarrow> (Inl (HTTPException 500 WriteFailure),
                                w2\<lparr>files := (files w)(loc e fp \<mapsto> take n bs)\<rparr>)
                   | None \<Rightarrow> (Inr (relative_path_of e user_id u x),
                              w2\<lparr>files := (files w)(loc e fp \<mapsto> bs)\<rparr>)))"
  by (simp add: upload_avatar_def user_dir_of_def file_path_of_def relative_path_of_def
      os_makedirs_def open_write_def Let_def split: sum.splits option.splits)

lemma upload_avatar_Inr:
  assumes "upload_avatar e user_id bs u w = (Inr p, w1)"
  shows "\<exists>m x. validate_file e bs = Inr m \<and> mime_to_ext m = Some x
           \<and> x \<in> {''jpg'', ''png'', ''gif''}
           \<and> p = relative_path_of e user_id u x
           \<and> w1 = w\<lparr>trace := trace w @ [MkDirs (user_dir_of e user_id),
                                         WriteFile (file_path_of e user_id u x)],
                    dirs := insert (loc e (user_dir_of e user_id)) (dirs w),
                    files := (files w)(loc e (file_path_of e user_id u x) \<mapsto> bs)\<rparr>"
proof (cases "validate_file e bs")
  case (Inl err)
  with assms show ?thesis by (simp add: upload_avatar_unfold)
next
  case (Inr m)
  then have "m \<in> allowed_mime_types" by (simp add: validate_file_Inr)
  then obtain x where x: "mime_to_ext m = Some x" "x \<in> {''jpg'', ''png'', ''gif''}"
    using allowed_mime_ext by blast
  from assms Inr x(1) have
    "p = relative_path_of e user_id u x
       \<and> w1 = w\<lparr>trace := trace w @ [MkDirs (user_dir_of e user_id),
                                     WriteFile (file_path_of e user_id u x)],
                dirs := insert (loc e (user_dir_of e user_id)) (dirs w),
                files := (files w)(loc e (file_path_of e user_id u x) \<mapsto> bs)\<rparr>"
    by (simp add: upload_avatar_unfold Let_def split: if_splits option.splits)
  with Inr x show ?thesis by blast
qed

lemma upload_avatar_success:
  assumes "validate_file e bs = Inr m" "mime_to_ext m = Some x"
    and "\<not> makedirs_raises e (user_dir_of e user_id)"
    and "files w (loc e (user_dir_of e user_id)) = None"
    and "\<not> open_raises e (file_path_of e user_id u x)"
    and "loc e (file_path_of e user_id u x) \<notin> insert (loc e (user_dir_of e user_id)) (dirs w)"
    and "write_raises e (file_path_of e user_id u x) = None"
  shows "upload_avatar e user_id bs u w =
           (Inr (relative_path_of e user_id u x),
            w\<lparr>trace := trace w @ [MkDirs (user_dir_of e user_id),
                                  WriteFile (file_path_of e user_id u x)],
              dirs := insert (loc e (user_dir_of e user_id)) (dirs w),
              files := (files w)(loc e (file_path_of e user_id u x) \<mapsto> bs)\<rparr>)"
  using assms by (simp add: upload_avatar_unfold Let_def)

lemma delete_avatar_unfold:
  "delete_avatar e rel w =
     (if \<not> os_path_exists e w (abs_path_of e rel) then (Inl (HTTPException 404 NotFound), w)
      else if remove_raises e (abs_path_of e rel) \<or> files w (loc e (abs_path_of e rel)) = None
           then (Inl (HTTPException 500 DeleteFailure),
                 w\<lparr>trace := trace w @ [RemoveFile (abs_path_of e rel)]\<rparr>)
      else (Inr (), w\<lparr>trace := trace w @ [RemoveFile (abs_path_of e rel)],
                      files := (files w)(loc e (abs_path_of e rel) := None)\<rparr>))"
  by (simp add: delete_avatar_def abs_path_of_def os_remove_def Let_def)

lemma session_get_Some: "users w k = Some user \<Longrightarrow> session_get e k w = Inr (Some user)"
  by (simp add: session_get_def)

lemma session_get_None:
  "users w k = None \<Longrightarrow>
     session_get e k w = (if key_in_range e k then Inr None else Inl DatabaseError)"
  by (simp add: session_get_def)

lemma persist_new_path_ok:
  assumes "\<not> commit_raises e" "\<not> refresh_raises e"
  shows "persist_new_path e user_id user p w =
           (Inr (user\<lparr>avatar_path := Some p\<rparr>),
            w\<lparr>trace := trace w @ [Commit user_id (Some p)],
              users := (users w)(user_id \<mapsto> user\<lparr>avatar_path := Some p\<rparr>)\<rparr>)"
  using assms by (simp add: persist_new_path_def session_commit_def session_refresh_def)

lemma persist_new_path_raises:
  assumes "commit_raises e \<or> refresh_raises e"
  shows "persist_new_path e user_id user p w =
           (case delete_avatar e p
                   (if commit_raises e then w\<lparr>trace := trace w @ [Commit user_id (Some p)]\<rparr>
                    else w\<lparr>trace := trace w @ [Commit user_id (Some p)],
                           users := (users w)(user_id \<mapsto> user\<lparr>avatar_path := Some p\<rparr>)\<rparr>) of
              (Inl err, w2) \<Rightarrow> (Inl err, w2)
            | (Inr _, w2) \<Rightarrow> (Inl (HTTPException 500 PersistenceFailure), w2))"
  using assms by (auto simp: persist_new_path_def session_commit_def session_refresh_def)

lemma upload_user_avatar_found:
  assumes "users w user_id = Some user" "file_read file = Inr bs"
  shows "upload_user_avatar e user_id file u w =
           (case upload_avatar e user_id bs u w of
              (Inl err, w1) \<Rightarrow> (Inl err, w1)
            | (Inr new_avatar_path, w1) \<Rightarrow>
                (case (if truthy (avatar_path user)
                       then delete_avatar e (fmt (avatar_path user)) w1
                       else (Inr (), w1)) of
                   (Inl err, w2) \<Rightarrow> (Inl err, w2)
                 | (Inr _, w2) \<Rightarrow>
                     (case persist_new_path e user_id user new_avatar_path w2 of
                        (Inl err, w3) \<Rightarrow> (Inl err, w3)
                      | (Inr user', w3) \<Rightarrow>
                          (Inr (AvatarUploaded user_id (avatar_path user')
                                  (get_avatar_url e (fmt (avatar_path user')))),
                           w3))))"
  using assms by (simp add: upload_user_avatar_def session_get_Some)
section \<open>Joining a relative path onto a root\<close>

lemma posix_join_relative:
  assumes "take 1 rel \<noteq> ''/''"
  shows "\<exists>sep \<in> {[], ''/''}. posix_join root [rel] = root @ sep @ rel"
  using assms by simp

lemma find_from_Some:
  "find_from c start i xs = Some k \<Longrightarrow> i \<le> k \<and> k - i < length xs \<and> xs ! (k - i) = c"
proof (induction xs arbitrary: i)
  case Nil
  then show ?case by simp
next
  case (Cons x xs)
  show ?case
  proof (cases "start \<le> i \<and> x = c")
    case True
    with Cons.prems show ?thesis by simp
  next
    case False
    with Cons.prems have "find_from c start (Suc i) xs = Some k" by auto
    from Cons.IH [OF this] show ?thesis
      by (auto simp: Suc_diff_le nth_Cons')
  qed
qed

lemma str_find_Some:
  "str_find s c start = Some k \<Longrightarrow> k < length s \<and> s ! k = c"
  using find_from_Some [of c start 0 s k] by (simp add: str_find_def)

lemma normp_map:
  "str_replace ''/'' [CHR 0x5C] p = map (\<lambda>x. if x = CHR ''/'' then CHR 0x5C else x) p"
  by (simp add: str_replace_def replace_from_single)

lemma normp_nth:
  assumes "k < length p" "str_replace ''/'' [CHR 0x5C] p ! k = CHR 0x5C"
  shows "p ! k \<in> nt_seps"
proof (cases "p ! k = CHR ''/''")
  case True
  then show ?thesis by (simp add: nt_seps_def)
next
  case False
  with assms have "p ! k = CHR 0x5C" by (simp add: normp_map)
  then show ?thesis by (simp add: nt_seps_def)
qed

lemma normp_colon:
  assumes "take 1 (drop 1 (str_replace ''/'' [CHR 0x5C] p)) = '':''"
  shows "2 \<le> length p \<and> p ! 1 = CHR '':''"
proof -
  let ?n = "str_replace ''/'' [CHR 0x5C] p"
  from assms obtain xs where dn: "drop 1 ?n = CHR '':'' # xs"
    by (cases "drop 1 ?n") auto
  then have l: "1 < length ?n" by (cases "1 < length ?n") auto
  then have lp: "1 < length p" by (simp add: normp_map)
  have "?n ! 1 = hd (drop 1 ?n)" using l by (simp add: hd_drop_conv_nth)
  with dn have "?n ! 1 = CHR '':''" by simp
  with lp have "p ! 1 = CHR '':''"
    by (cases "p ! 1 = CHR ''/''") (simp_all add: normp_map)
  with lp show ?thesis by simp
qed

lemma splitdrive_cases:
  "splitdrive p = ([], p) \<or> splitdrive p = (p, [])
   \<or> (\<exists>k. k < length p \<and> p ! k \<in> nt_seps \<and> splitdrive p = (take k p, drop k p))
   \<or> (2 \<le> length p \<and> p ! 1 = CHR '':'' \<and> splitdrive p = (take 2 p, drop 2 p))"
proof (cases "2 \<le> length p")
  case False
  then show ?thesis by (simp add: splitdrive_def)
next
  case len: True
  let ?n = "str_replace ''/'' [CHR 0x5C] p"
  show ?thesis
  proof (cases "take 2 ?n = [CHR 0x5C, CHR 0x5C]")
    case unc: True
    define start :: nat where
      "start = (if map ascii_upper (take 8 ?n)
                     = [CHR 0x5C, CHR 0x5C, CHR ''?'', CHR 0x5C,
                        CHR ''U'', CHR ''N'', CHR ''C'', CHR 0x5C]
                then 8 else 2)"
    have sd: "splitdrive p =
                (case str_find ?n (CHR 0x5C) start of
                   None \<Rightarrow> (p, [])
                 | Some index \<Rightarrow>
                     (case str_find ?n (CHR 0x5C) (index + 1) of
                        None \<Rightarrow> (p, [])
                      | Some index2 \<Rightarrow> (take index2 p, drop index2 p)))"
      unfolding splitdrive_def Let_def start_def using len unc by simp
    show ?thesis
    proof (cases "str_find ?n (CHR 0x5C) start")
      case None
      with sd show ?thesis by simp
    next
      case (Some index)
      show ?thesis
      proof (cases "str_find ?n (CHR 0x5C) (index + 1)")
        case None
        with sd Some show ?thesis by simp
      next
        case i2: (Some index2)
        from str_find_Some [OF i2] have k: "index2 < length p" "?n ! index2 = CHR 0x5C"
          by (simp_all add: normp_map)
        from normp_nth [OF k] have "p ! index2 \<in> nt_seps" .
        moreover from sd Some i2 have "splitdrive p = (take index2 p, drop index2 p)"
          by simp
        ultimately show ?thesis using k(1) by blast
      qed
    qed
  next
    case nunc: False
    show ?thesis
    proof (cases "take 1 (drop 1 ?n) = '':''")
      case True
      have "splitdrive p = (take 2 p, drop 2 p)"
        unfolding splitdrive_def Let_def using len nunc True by simp
      with normp_colon [OF True] show ?thesis by blast
    next
      case False
      have "splitdrive p = ([], p)"
        unfolding splitdrive_def Let_def using len nunc False by simp
      then show ?thesis by blast
    qed
  qed
qed

lemma splitdrive_append: "splitdrive p = (d, r) \<Longrightarrow> d @ r = p"
  using splitdrive_cases [of p] by auto

lemma splitdrive_rest:
  assumes "splitdrive p = (d, r)" "d \<noteq> []" "last d \<noteq> CHR '':''" "r \<noteq> []"
  shows "hd r \<in> nt_seps"
proof -
  consider "splitdrive p = ([], p)" | "splitdrive p = (p, [])"
    | k where "k < length p" "p ! k \<in> nt_seps" "splitdrive p = (take k p, drop k p)"
    | "2 \<le> length p" "p ! 1 = CHR '':''" "splitdrive p = (take 2 p, drop 2 p)"
    using splitdrive_cases [of p] by blast
  then show ?thesis
  proof cases
    case 1
    with assms show ?thesis by simp
  next
    case 2
    with assms show ?thesis by simp
  next
    case 3
    with assms(1) have "r = drop k p" by simp
    with 3(1,2) show ?thesis by (simp add: hd_drop_conv_nth)
  next
    case 4
    with assms(1) have "d = take 2 p" by simp
    moreover have "take 2 p = take 1 p @ [p ! 1]"
      using 4(1) take_Suc_conv_app_nth [of 1 p] by (simp add: numeral_2_eq_2)
    ultimately have "last d = CHR '':''" using 4(2) by simp
    with assms(3) show ?thesis by simp
  qed
qed

lemma nt_join_relative:
  assumes "splitdrive rel = ([], rel)" "rel \<noteq> []" "hd rel \<notin> nt_seps"
  shows "\<exists>sep \<in> {[], [CHR 0x5C]}. nt_join root [rel] = root @ sep @ rel"
proof -
  obtain d r where s: "splitdrive root = (d, r)" by (cases "splitdrive root")
  then have root: "root = d @ r" by (simp add: splitdrive_append)
  let ?r' = "if r \<noteq> [] \<and> last r \<notin> nt_seps then r @ [CHR 0x5C] else r"
  have loop: "nt_join_loop (d, r) [rel] = (d, ?r' @ rel)"
    using assms by simp
  have j: "nt_join root [rel] =
             (if hd (?r' @ rel) \<notin> nt_seps \<and> d \<noteq> [] \<and> last d \<noteq> CHR '':''
              then d @ [CHR 0x5C] @ ?r' @ rel else d @ ?r' @ rel)"
    unfolding nt_join_def s loop using assms(2) by simp
  show ?thesis
  proof (cases "r = []")
    case True
    with j root show ?thesis by simp
  next
    case False
    then have hd: "hd (?r' @ rel) = hd r" by simp
    have "\<not> (hd r \<notin> nt_seps \<and> d \<noteq> [] \<and> last d \<noteq> CHR '':'')"
      using splitdrive_rest [OF s] False by blast
    with j hd have "nt_join root [rel] = d @ ?r' @ rel" by simp
    with root show ?thesis by simp
  qed
qed

lemma os_path_join_relative:
  assumes "relative_to_root h rel"
  shows "\<exists>sep \<in> {[], ''/'', [CHR 0x5C]}. os_path_join h root [rel] = root @ sep @ rel"
proof (cases h)
  case Posix
  with assms posix_join_relative [of rel root] show ?thesis
    by (auto simp: os_path_join_def relative_to_root_def)
next
  case Nt
  with assms nt_join_relative [of rel root] show ?thesis
    by (auto simp: os_path_join_def relative_to_root_def)
qed


lemma nt_join_component:
  assumes "plain b" "b \<noteq> []" "root \<noteq> []" "last root \<notin> nt_seps" "last root \<noteq> CHR '':''"
  shows "nt_join root [b] = root @ [CHR 0x5C] @ b"
proof -
  obtain d r where s: "splitdrive root = (d, r)" by (cases "splitdrive root")
  then have root: "root = d @ r" by (simp add: splitdrive_append)
  from plain_hd [OF assms(1,2)] have hb: "hd b \<notin> nt_seps" by (simp add: nt_seps_def)
  let ?r' = "if r \<noteq> [] \<and> last r \<notin> nt_seps then r @ [CHR 0x5C] else r"
  have loop: "nt_join_loop (d, r) [b] = (d, ?r' @ b)"
    using assms(2) hb by (simp add: splitdrive_plain [OF assms(1)])
  have j: "nt_join root [b] =
             (if hd (?r' @ b) \<notin> nt_seps \<and> d \<noteq> [] \<and> last d \<noteq> CHR '':''
              then d @ [CHR 0x5C] @ ?r' @ b else d @ ?r' @ b)"
    unfolding nt_join_def s loop using assms(2) by simp
  show ?thesis
  proof (cases "r = []")
    case True
    with root assms(3,5) have "d \<noteq> []" "last d \<noteq> CHR '':''" by simp_all
    with j True hb root show ?thesis by simp
  next
    case False
    with root assms(4) have lr: "last r \<notin> nt_seps" by simp
    from False have hd: "hd (?r' @ b) = hd r" by simp
    have "\<not> (hd r \<notin> nt_seps \<and> d \<noteq> [] \<and> last d \<noteq> CHR '':'')"
      using splitdrive_rest [OF s] False by blast
    with j hd have "nt_join root [b] = d @ ?r' @ b" by simp
    with root False lr show ?thesis by simp
  qed
qed

lemma avatars_relative: "relative_to_root h (''avatars/'' @ rest)"
proof (cases h)
  case Posix
  then show ?thesis by (simp add: relative_to_root_def)
next
  case Nt
  have "splitdrive (''avatars/'' @ rest) = ([], ''avatars/'' @ rest)"
    by (simp add: splitdrive_def normp_map)
  with Nt show ?thesis by (simp add: relative_to_root_def nt_seps_def)
qed
section \<open>The layout of the upload directory\<close>

lemma take_avatars_suffix:
  assumes "take 7 (xs @ ''/avatars'') = ''avatars''"
  shows "take 7 xs = ''avatars''"
proof (cases "7 \<le> length xs")
  case True
  with assms show ?thesis by simp
next
  case False
  then have "take 7 (xs @ ''/avatars'') = xs @ take (7 - length xs) ''/avatars''"
    by simp
  moreover obtain k where "7 - length xs = Suc k"
    using False by (cases "7 - length xs") auto
  ultimately have "CHR ''/'' \<in> set (take 7 (xs @ ''/avatars''))" by simp
  with assms show ?thesis by simp
qed

lemma take_avatars_suffix_length:
  "take (length ''avatars'') (xs @ ''/avatars'') = ''avatars'' \<Longrightarrow>
     take (length ''avatars'') xs = ''avatars''"
proof -
  have len: "length ''avatars'' = 7" by simp
  show "take (length ''avatars'') (xs @ ''/avatars'') = ''avatars'' \<Longrightarrow>
          take (length ''avatars'') xs = ''avatars''"
    unfolding len by (rule take_avatars_suffix)
qed

lemma replace_avatars_root:
  "\<not> occurs ''avatars'' root \<Longrightarrow>
     replace_from ''avatars'' [] (root @ ''/avatars'') = root @ ''/''"
proof (induction root)
  case Nil
  show ?case by simp
next
  case (Cons c cs)
  from Cons.prems
  have prem: "\<not> (take (length ''avatars'') (c # cs) = ''avatars'' \<or> occurs ''avatars'' cs)"
    unfolding occurs.simps .
  then have n: "take (length ''avatars'') (c # cs) \<noteq> ''avatars''"
    and o: "\<not> occurs ''avatars'' cs"
    by blast+
  from n take_avatars_suffix_length [of "c # cs"]
  have "take (length ''avatars'') ((c # cs) @ ''/avatars'') \<noteq> ''avatars''" by blast
  then have nt: "take (length ''avatars'') (c # (cs @ ''/avatars'')) \<noteq> ''avatars''"
    unfolding append_Cons .
  have "replace_from ''avatars'' [] (c # (cs @ ''/avatars''))
          = c # replace_from ''avatars'' [] (cs @ ''/avatars'')"
    using replace_from.simps(2) [of "''avatars''" "[]" c "cs @ ''/avatars''"] nt
    by (simp only: simp_thms if_False)
  with Cons.IH [OF o] show ?case by simp
qed


lemma replaced_upload_dir:
  assumes "UPLOAD_DIR (settings e) = root @ ''/avatars''" "\<not> occurs ''avatars'' root"
  shows "str_replace ''avatars'' [] (UPLOAD_DIR (settings e)) = root @ ''/''"
  using assms by (simp add: str_replace_def replace_avatars_root)

lemma component_avatars: "component ''avatars''"
  by (simp add: component_def plain_def)

lemma pieces_three:
  assumes "c \<in> seps h" "c' \<in> seps h" "component a" "component s" "component f"
  shows "pieces h (a @ c # s @ c' # f) = [a, s, f]"
proof -
  have "pieces h (a @ c # (s @ c' # f)) = pieces h a @ pieces h (s @ c' # f)"
    by (rule pieces_append [OF assms(1)])
  also have "pieces h (s @ c' # f) = pieces h s @ pieces h f"
    by (rule pieces_append [OF assms(2)])
  finally show ?thesis
    by (simp add: pieces_component assms(3,4,5))
qed

text \<open>The path \<open>upload_avatar\<close> writes to, for an upload directory that ends in a proper
  last component: the directory, the user id and the file name, joined by the host's
  separator.\<close>

lemma file_path_layout:
  assumes "UPLOAD_DIR (settings e) = root @ ''/avatars''" "plain x"
  shows "\<exists>c \<in> seps (host e).
           (host e = Posix \<longrightarrow> c = CHR ''/'')
           \<and> user_dir_of e user_id = root @ ''/avatars'' @ c # str_int user_id
           \<and> file_path_of e user_id u x
               = root @ ''/avatars'' @ c # str_int user_id @ c # (uuid_str u @ ''.'' @ x)"
proof -
  let ?s = "str_int user_id" and ?f = "uuid_str u @ ''.'' @ x"
  have cs: "component ?s" by (rule component_str_int)
  have cf: "component ?f" by (rule component_file_name [OF assms(2)])
  have ps: "plain ?s" "?s \<noteq> []" using cs by (simp_all add: component_def)
  have pf: "plain ?f" "?f \<noteq> []" using cf by (simp_all add: component_def)
  show ?thesis
  proof (cases "host e")
    case Posix
    have s1: "take 1 ?s \<noteq> ''/''"
      using plain_hd [OF ps] ps(2) by (cases ?s) auto
    have f1: "take 1 ?f \<noteq> ''/''"
      using plain_hd [OF pf] pf(2) by (cases ?f) auto
    have ls: "last ?s \<noteq> CHR ''/''" using plain_last [OF ps] by simp
    have ud: "user_dir_of e user_id = root @ ''/avatars/'' @ ?s"
      using Posix assms(1) s1 by (simp add: user_dir_of_def os_path_join_def)
    have "file_path_of e user_id u x = root @ ''/avatars/'' @ ?s @ ''/'' @ ?f"
      using Posix f1 ls ps(2) by (simp add: file_path_of_def ud os_path_join_def)
    with Posix ud show ?thesis by (simp add: seps_def)
  next
    case Nt
    have ud: "user_dir_of e user_id = (root @ ''/avatars'') @ [CHR 0x5C] @ ?s"
      unfolding user_dir_of_def assms(1) using Nt
      by (simp add: os_path_join_def nt_join_component [OF ps] nt_seps_def)
    have "last ?s \<in> set ?s" using ps(2) by simp
    then have "last ?s \<notin> nt_seps" "last ?s \<noteq> CHR '':''"
      using ps(1) by (auto simp: nt_seps_def plain_def)
    moreover have "last (user_dir_of e user_id) = last ?s"
      using ps(2) by (simp add: ud)
    ultimately have l: "last (user_dir_of e user_id) \<notin> nt_seps"
      "last (user_dir_of e user_id) \<noteq> CHR '':''"
      by simp_all
    have ne: "user_dir_of e user_id \<noteq> []" by (simp add: ud)
    have nj: "nt_join (user_dir_of e user_id) [?f] = user_dir_of e user_id @ [CHR 0x5C] @ ?f"
      by (rule nt_join_component [OF pf ne l])
    have "file_path_of e user_id u x = user_dir_of e user_id @ [CHR 0x5C] @ ?f"
      unfolding file_path_of_def os_path_join_def using Nt nj by simp
    with Nt show ?thesis by (simp add: ud seps_def nt_seps_def)
  qed
qed

text \<open>The path \<open>delete_avatar\<close> looks at, for a relative path of the shape \<open>upload_avatar\<close>
  returns and an upload directory \<open><root>/avatars\<close>.\<close>

lemma abs_path_layout:
  assumes "UPLOAD_DIR (settings e) = root @ ''/avatars''" "\<not> occurs ''avatars'' root"
  shows "\<exists>sep \<in> {[], [CHR 0x5C]}.
           (host e = Posix \<longrightarrow> sep = [])
           \<and> abs_path_of e (''avatars/'' @ rest) = root @ ''/'' @ sep @ ''avatars/'' @ rest"
proof -
  have a: "abs_path_of e (''avatars/'' @ rest)
             = os_path_join (host e) (root @ ''/'') [''avatars/'' @ rest]"
    by (simp add: abs_path_of_def replaced_upload_dir [OF assms])
  show ?thesis
  proof (cases "host e")
    case Posix
    then show ?thesis unfolding a by (simp add: os_path_join_def)
  next
    case Nt
    have r: "splitdrive (''avatars/'' @ rest) = ([], ''avatars/'' @ rest)"
      "''avatars/'' @ rest \<noteq> []" "hd (''avatars/'' @ rest) \<notin> nt_seps"
      using avatars_relative [of Nt rest] by (simp_all add: relative_to_root_def)
    from nt_join_relative [OF r, of "root @ ''/''"] Nt show ?thesis
      unfolding a by (auto simp: os_path_join_def)
  qed
qed

lemma pieces_sep_prefix:
  assumes "sep \<in> {[], [CHR 0x5C]}" "host e = Posix \<longrightarrow> sep = []"
  shows "pieces (host e) (sep @ t) = pieces (host e) t"
proof (cases "sep = []")
  case True
  then show ?thesis by simp
next
  case False
  with assms have s: "sep = [CHR 0x5C]" and h: "host e = Nt"
    by (auto intro: host_os.exhaust)
  have "CHR 0x5C \<in> seps (host e)" using h by (simp add: seps_def nt_seps_def)
  from pieces_append [OF this, of "[]" t] show ?thesis by (simp add: s pieces_Nil)
qed

lemma rooted_prefix:
  "(root @ CHR ''/'' # t \<noteq> [] \<and> hd (root @ CHR ''/'' # t) \<in> seps h)
     = (root @ CHR ''/'' # t' \<noteq> [] \<and> hd (root @ CHR ''/'' # t') \<in> seps h)"
  by (cases root) simp_all

text \<open>Under that layout, the path returned by an upload names, for \<open>delete_avatar\<close>, the
  location of the file the upload wrote.\<close>

lemma same_location:
  assumes "UPLOAD_DIR (settings e) = root @ ''/avatars''" "\<not> occurs ''avatars'' root"
    and "plain x" "x \<noteq> []"
  shows "loc e (abs_path_of e (relative_path_of e user_id u x))
           = loc e (file_path_of e user_id u x)"
proof -
  let ?h = "host e" and ?s = "str_int user_id" and ?f = "uuid_str u @ ''.'' @ x"
  have cs: "component ?s" by (rule component_str_int)
  have cf: "component ?f" by (rule component_file_name [OF assms(3)])
  have rel: "relative_path_of e user_id u x = ''avatars/'' @ (?s @ ''/'' @ ?f)"
    using relative_path_shape [OF assms(3,4), of e user_id u] by simp
  from abs_path_layout [OF assms(1,2), of "?s @ ''/'' @ ?f"] obtain sep where
    sep: "sep \<in> {[], [CHR 0x5C]}" "?h = Posix \<longrightarrow> sep = []"
    and ab: "abs_path_of e (''avatars/'' @ (?s @ ''/'' @ ?f))
               = root @ CHR ''/'' # (sep @ (''avatars'' @ CHR ''/'' # ?s @ CHR ''/'' # ?f))"
    by auto
  from file_path_layout [OF assms(1,3), of user_id u] obtain c where
    c: "c \<in> seps ?h"
    and fp: "file_path_of e user_id u x
               = root @ CHR ''/'' # (''avatars'' @ c # ?s @ c # ?f)"
    by auto
  have sl: "CHR ''/'' \<in> seps ?h" by (rule slash_sep)
  let ?T = "''avatars'' @ CHR ''/'' # ?s @ CHR ''/'' # ?f"
  let ?U = "''avatars'' @ c # ?s @ c # ?f"
  have p1: "pieces ?h (root @ CHR ''/'' # (sep @ ?T)) = pieces ?h root @ [''avatars'', ?s, ?f]"
  proof -
    have "pieces ?h (root @ CHR ''/'' # (sep @ ?T)) = pieces ?h root @ pieces ?h (sep @ ?T)"
      by (rule pieces_append [OF sl])
    also have "\<dots> = pieces ?h root @ pieces ?h ?T"
      by (simp only: pieces_sep_prefix [OF sep])
    also have "\<dots> = pieces ?h root @ [''avatars'', ?s, ?f]"
      by (simp only: pieces_three [OF sl sl component_avatars cs cf])
    finally show ?thesis .
  qed
  have p2: "pieces ?h (root @ CHR ''/'' # ?U) = pieces ?h root @ [''avatars'', ?s, ?f]"
  proof -
    have "pieces ?h (root @ CHR ''/'' # ?U) = pieces ?h root @ pieces ?h ?U"
      by (rule pieces_append [OF sl])
    also have "\<dots> = pieces ?h root @ [''avatars'', ?s, ?f]"
      by (simp only: pieces_three [OF c c component_avatars cs cf])
    finally show ?thesis .
  qed
  show ?thesis
    unfolding loc_def rel ab fp
  proof (rule location_eqI)
    show "pieces ?h (root @ CHR ''/'' # (sep @ ?T)) = pieces ?h (root @ CHR ''/'' # ?U)"
      unfolding p1 p2 ..
    show "(root @ CHR ''/'' # (sep @ ?T) \<noteq> [] \<and> hd (root @ CHR ''/'' # (sep @ ?T)) \<in> seps ?h)
            = (root @ CHR ''/'' # ?U \<noteq> [] \<and> hd (root @ CHR ''/'' # ?U) \<in> seps ?h)"
      by (rule rooted_prefix)
  qed
qed

text \<open>Folding the case of a component makes no \<open>..\<close> of another component.\<close>

lemma ascii_lower_dot: "ascii_lower c = CHR ''.'' \<Longrightarrow> c = CHR ''.''"
proof (rule ccontr)
  assume a: "ascii_lower c = CHR ''.''" and n: "c \<noteq> CHR ''.''"
  then have r: "65 \<le> (of_char c :: nat)" "(of_char c :: nat) \<le> 90"
    and l: "char_of ((of_char c :: nat) + 32) = CHR ''.''"
    by (auto simp: ascii_lower_def split: if_splits)
  from l have "(of_char (char_of ((of_char c :: nat) + 32)) :: nat) = of_char CHR ''.''"
    by simp
  then have "((of_char c :: nat) + 32) mod 256 = 46" by simp
  with r show False by simp
qed

lemma lower_dotdot: "map ascii_lower s = ''..'' \<Longrightarrow> s = ''..''"
proof -
  assume a: "map ascii_lower s = ''..''"
  then have "length s = 2" using length_map [of ascii_lower s] by simp
  then obtain a b where s: "s = [a, b]"
    by (cases s; cases "tl s") auto
  with a have "ascii_lower a = CHR ''.''" "ascii_lower b = CHR ''.''" by simp_all
  then show ?thesis using s by (simp add: ascii_lower_dot)
qed

lemma dotdot_append_none:
  "''..'' \<notin> set ys \<Longrightarrow> dotdot r acc (xs @ ys) = dotdot r acc xs @ ys"
proof (induction ys rule: rev_induct)
  case Nil
  then show ?case by simp
next
  case (snoc y ys)
  then have y: "y \<noteq> ''..''" and ys: "''..'' \<notin> set ys" by auto
  have "dotdot r acc ((xs @ ys) @ [y]) = dotdot r acc (xs @ ys) @ [y]"
    by (rule dotdot_snoc [OF y])
  with snoc.IH [OF ys] show ?case by simp
qed

text \<open>Appending a separator and a path without \<open>..\<close> to a path names a location under
  the one the path names.\<close>

lemma location_extend:
  assumes "p \<noteq> []" "c \<in> seps h" "''..'' \<notin> set (pieces h t)"
  shows "\<exists>ps. length ps = length (pieces h t)
           \<and> location h (p @ c # t) = (fst (location h p), snd (location h p) @ ps)"
proof -
  have r: "(p @ c # t \<noteq> [] \<and> hd (p @ c # t) \<in> seps h) = (p \<noteq> [] \<and> hd p \<in> seps h)"
    using assms(1) by simp
  have pc: "pieces h (p @ c # t) = pieces h p @ pieces h t"
    by (rule pieces_append [OF assms(2)])
  show ?thesis
  proof (cases h)
    case Posix
    from assms(3) Posix have n: "''..'' \<notin> set (pieces Posix t)" by simp
    have "location h (p @ c # t)
            = (fst (location h p), snd (location h p) @ pieces h t)"
      unfolding location_def Let_def r pc using Posix
      by (simp add: dotdot_append_none [OF n])
    then show ?thesis by blast
  next
    case Nt
    have n: "''..'' \<notin> set (map (map ascii_lower) (pieces Nt t))"
    proof
      assume "''..'' \<in> set (map (map ascii_lower) (pieces Nt t))"
      then obtain s where s: "s \<in> set (pieces Nt t)" "map ascii_lower s = ''..''"
        by (metis (no_types) imageE list.set_map)
      from lower_dotdot [OF s(2)] s(1) assms(3) Nt show False by simp
    qed
    have "location h (p @ c # t)
            = (fst (location h p), snd (location h p) @ map (map ascii_lower) (pieces h t))"
      unfolding location_def Let_def r pc using Nt
      by (simp add: dotdot_append_none [OF n])
    then show ?thesis by (intro exI [of _ "map (map ascii_lower) (pieces h t)"]) simp
  qed
qed

text \<open>The file \<open>upload_avatar\<close> writes is not the directory it made.\<close>

lemma file_loc_not_dir:
  assumes "UPLOAD_DIR (settings e) = root @ ''/avatars''" "plain x"
  shows "loc e (file_path_of e user_id u x) \<noteq> loc e (user_dir_of e user_id)"
proof -
  let ?f = "uuid_str u @ ''.'' @ x"
  from file_path_layout [OF assms, of user_id u] obtain c where
    c: "c \<in> seps (host e)"
    and ud: "user_dir_of e user_id = root @ ''/avatars'' @ c # str_int user_id"
    and fp: "file_path_of e user_id u x
               = root @ ''/avatars'' @ c # str_int user_id @ c # ?f"
    by blast
  have fp': "file_path_of e user_id u x = user_dir_of e user_id @ c # ?f"
    by (simp add: ud fp)
  have ne: "user_dir_of e user_id \<noteq> []" by (simp add: ud)
  have cf: "component ?f" by (rule component_file_name [OF assms(2)])
  then have "''..'' \<notin> set (pieces (host e) ?f)"
    by (auto simp: pieces_component component_def)
  from location_extend [OF ne c this] obtain ps where
    ps: "length ps = length (pieces (host e) ?f)"
    and l: "location (host e) (user_dir_of e user_id @ c # ?f)
       = (fst (location (host e) (user_dir_of e user_id)),
          snd (location (host e) (user_dir_of e user_id)) @ ps)"
    by blast
  have "length ps = 1" unfolding ps pieces_component [OF cf] by simp
  then have "ps \<noteq> []" by auto
  then have "snd (location (host e) (user_dir_of e user_id)) @ ps
               \<noteq> snd (location (host e) (user_dir_of e user_id))"
    by simp
  then have "snd (location (host e) (user_dir_of e user_id @ c # ?f))
               \<noteq> snd (location (host e) (user_dir_of e user_id))"
    unfolding l by simp
  then show ?thesis
    unfolding loc_def fp' by auto
qed


section \<open>The example deployment at work\<close>

lemma str_int_7: "str_int 7 = ''7''"
  by (simp add: str_int_def nat_digits.simps)

lemma str_int_8: "str_int 8 = ''8''"
  by (simp add: str_int_def nat_digits.simps)

lemma file_name_start: "take 1 (uuid_str u @ ''.'' @ x) \<noteq> ''/''"
proof -
  obtain c cs where "uuid_str u = c # cs"
    using uuid_str_nonempty [of u] by (cases "uuid_str u") auto
  moreover from this have "c \<noteq> CHR ''/''"
    using uuid_str_plain [of u] by (auto simp: plain_def)
  ultimately show ?thesis by simp
qed

lemma example_user_dir:
  "user_dir_of example_env 7 = ''uploads/avatars/7''"
  "user_dir_of example_env 8 = ''uploads/avatars/8''"
  by (simp_all add: user_dir_of_def example_env_def example_settings_def os_path_join_def
      str_int_7 str_int_8)

lemma example_file_path:
  "file_path_of example_env 7 u x = ''uploads/avatars/7/'' @ uuid_str u @ ''.'' @ x"
  "file_path_of example_env 8 u x = ''uploads/avatars/8/'' @ uuid_str u @ ''.'' @ x"
  using file_name_start [of u x]
  by (simp_all add: file_path_of_def example_user_dir)
    (simp_all add: example_env_def os_path_join_def)

lemma example_abs_path:
  "abs_path_of example_env (''avatars/'' @ rest) = ''uploads/avatars/'' @ rest"
  by (simp add: abs_path_of_def example_env_def example_settings_def str_replace_def
      os_path_join_def)

lemma pieces_cons:
  "component a \<Longrightarrow> c \<in> seps h \<Longrightarrow> pieces h (a @ c # b) = a # pieces h b"
  by (simp add: pieces_append pieces_component)

text \<open>The locations of the example's user directories and of the files in them.\<close>

lemma example_dir_loc:
  assumes "component n"
  shows "loc example_env (''uploads/avatars/'' @ n) = (False, [''uploads'', ''avatars'', n])"
proof -
  have h: "host example_env = Posix" by (simp add: example_env_def)
  have cu: "component ''uploads''" and ca: "component ''avatars''"
    by (simp_all add: component_def plain_def)
  have e: "''uploads/avatars/'' @ n = ''uploads'' @ CHR ''/'' # (''avatars'' @ CHR ''/'' # n)"
    by simp
  have p: "pieces Posix (''uploads/avatars/'' @ n) = [''uploads'', ''avatars'', n]"
    unfolding e
    by (simp only: pieces_cons [OF cu slash_sep] pieces_cons [OF ca slash_sep]
        pieces_component [OF assms])
  have d: "''..'' \<notin> set [''uploads'', ''avatars'', n]"
    using assms by (auto simp: component_def)
  show ?thesis
    unfolding loc_def location_def h Let_def host_os.case p dotdot_none [OF d]
    by (simp add: seps_def)
qed

lemma example_file_loc:
  assumes "component n" "component f"
  shows "loc example_env (''uploads/avatars/'' @ n @ ''/'' @ f)
           = (False, [''uploads'', ''avatars'', n, f])"
proof -
  have h: "host example_env = Posix" by (simp add: example_env_def)
  have cu: "component ''uploads''" and ca: "component ''avatars''"
    by (simp_all add: component_def plain_def)
  have e: "''uploads/avatars/'' @ n @ ''/'' @ f
             = ''uploads'' @ CHR ''/'' # (''avatars'' @ CHR ''/'' # (n @ CHR ''/'' # f))"
    by simp
  have p: "pieces Posix (''uploads/avatars/'' @ n @ ''/'' @ f)
             = [''uploads'', ''avatars'', n, f]"
    unfolding e
    by (simp only: pieces_cons [OF cu slash_sep] pieces_cons [OF ca slash_sep]
        pieces_cons [OF assms(1) slash_sep] pieces_component [OF assms(2)])
  have d: "''..'' \<notin> set [''uploads'', ''avatars'', n, f]"
    using assms by (auto simp: component_def)
  show ?thesis
    unfolding loc_def location_def h Let_def host_os.case p dotdot_none [OF d]
    by (simp add: seps_def)
qed

lemma component_7: "component ''7''"
  by (simp add: component_def plain_def)

lemma component_8: "component ''8''"
  by (simp add: component_def plain_def)

lemma component_png: "component (uuid_str u @ ''.png'')"
  using component_file_name [of "''png''" u] by (simp add: plain_def)

lemma file_name_not_old: "uuid_str u @ ''.png'' \<noteq> ''old.png''"
proof
  assume "uuid_str u @ ''.png'' = ''old.png''"
  then have "length (uuid_str u @ ''.png'') = length ''old.png''" by simp
  then show False by (simp add: uuid_str_def Let_def)
qed

lemma example_validate_png: "validate_file example_env example_png = Inr ''image/png''"
  by (simp add: validate_file_def example_env_def example_settings_def example_magic_def
      example_png_def allowed_mime_types_def)

lemma example_relative_path:
  "relative_path_of e 7 u ''png'' = ''avatars/7/'' @ uuid_str u @ ''.png''"
  "relative_path_of e 8 u ''png'' = ''avatars/8/'' @ uuid_str u @ ''.png''"
  using relative_path_shape [of "''png''" e 7 u] relative_path_shape [of "''png''" e 8 u]
  by (simp_all add: plain_def str_int_7 str_int_8)

text \<open>Uploading a PNG for user 7 or 8 of the example, on a disk \<open>fs\<close> where nothing is in
  the way.\<close>

lemma example_upload:
  fixes n :: string and fs :: "location \<rightharpoonup> byte list"
  assumes "(user_id, n) = (7, ''7'') \<or> (user_id, n) = (8, ''8'')"
    and "fs (False, [''uploads'', ''avatars'', n]) = None"
    and "settings e = example_settings" "host e = Posix"
    and "magic_from_buffer e = example_magic"
    and "makedirs_raises e = (\<lambda>p. False)" "open_raises e = (\<lambda>p. False)"
    and "write_raises e = (\<lambda>p. None)"
  shows "upload_avatar e user_id example_png u (example_world\<lparr>files := fs\<rparr>) =
     (Inr (''avatars/'' @ n @ ''/'' @ uuid_str u @ ''.png''),
      example_world\<lparr>trace := [MkDirs (''uploads/avatars/'' @ n),
                               WriteFile (''uploads/avatars/'' @ n @ ''/'' @ uuid_str u @ ''.png'')],
        dirs := insert (False, [''uploads'', ''avatars'', n]) (dirs example_world),
        files := fs((False, [''uploads'', ''avatars'', n, uuid_str u @ ''.png''])
                      \<mapsto> example_png)\<rparr>)"
proof -
  let ?w = "example_world\<lparr>files := fs\<rparr>"
  let ?f = "uuid_str u @ ''.png''"
  have cn: "component n" using assms(1) by (auto simp: component_def plain_def)
  have sn: "str_int user_id = n" using assms(1) by (auto simp: str_int_7 str_int_8)
  have le: "loc e = loc example_env"
    by (rule ext) (simp add: loc_def assms(4) example_env_def)
  have ud: "user_dir_of e user_id = ''uploads/avatars/'' @ n"
    using assms(1)
    by (auto simp: user_dir_of_def assms(3,4) example_settings_def os_path_join_def
        str_int_7 str_int_8)
  have fp: "file_path_of e user_id u ''png'' = ''uploads/avatars/'' @ n @ ''/'' @ ?f"
    using file_name_start [of u "''png''"] assms(1)
    by (auto simp: file_path_of_def ud assms(4) os_path_join_def)
  have lu: "loc e (''uploads/avatars/'' @ n) = (False, [''uploads'', ''avatars'', n])"
    unfolding le by (rule example_dir_loc [OF cn])
  have lf: "loc e (''uploads/avatars/'' @ n @ ''/'' @ ?f)
              = (False, [''uploads'', ''avatars'', n, ?f])"
    unfolding le by (rule example_file_loc [OF cn component_png])
  have v: "validate_file e example_png = Inr ''image/png''"
    by (simp add: validate_file_def assms(3,5) example_settings_def example_magic_def
        example_png_def allowed_mime_types_def)
  have r: "relative_path_of e user_id u ''png'' = ''avatars/'' @ n @ ''/'' @ ?f"
    using relative_path_shape [of "''png''" e user_id u] by (simp add: plain_def sn)
  have t: "trace ?w = []" "dirs ?w = dirs example_world" "files ?w = fs"
    by (simp_all add: example_world_def)
  have "upload_avatar e user_id example_png u ?w =
     (Inr (relative_path_of e user_id u ''png''),
      ?w\<lparr>trace := trace ?w @ [MkDirs (user_dir_of e user_id),
                               WriteFile (file_path_of e user_id u ''png'')],
        dirs := insert (loc e (user_dir_of e user_id)) (dirs ?w),
        files := (files ?w)(loc e (file_path_of e user_id u ''png'') \<mapsto> example_png)\<rparr>)"
  proof (rule upload_avatar_success [OF v])
    show "mime_to_ext ''image/png'' = Some ''png''" by (simp add: mime_to_ext_def)
    show "\<not> makedirs_raises e (user_dir_of e user_id)" by (simp add: assms(6))
    show "files ?w (loc e (user_dir_of e user_id)) = None"
      unfolding ud lu t by (rule assms(2))
    show "\<not> open_raises e (file_path_of e user_id u ''png'')" by (simp add: assms(7))
    show "loc e (file_path_of e user_id u ''png'')
            \<notin> insert (loc e (user_dir_of e user_id)) (dirs ?w)"
      unfolding ud fp lu lf t by (simp add: example_world_def)
    show "write_raises e (file_path_of e user_id u ''png'') = None" by (simp add: assms(8))
  qed
  then show ?thesis
    unfolding r ud fp lu lf t by simp
qed

lemma example_upload_7:
  "upload_avatar example_env 7 example_png u example_world =
     (Inr (''avatars/7/'' @ uuid_str u @ ''.png''),
      example_world\<lparr>trace := [MkDirs ''uploads/avatars/7'',
                               WriteFile (''uploads/avatars/7/'' @ uuid_str u @ ''.png'')],
        dirs := insert (False, [''uploads'', ''avatars'', ''7'']) (dirs example_world),
        files := (files example_world)
                   ((False, [''uploads'', ''avatars'', ''7'', uuid_str u @ ''.png''])
                      \<mapsto> example_png)\<rparr>)"
proof -
  have w: "example_world\<lparr>files := files example_world\<rparr> = example_world" by simp
  have f: "files example_world (False, [''uploads'', ''avatars'', ''7'']) = None"
    by (simp add: example_world_def)
  from example_upload [of 7 "''7''" "files example_world" example_env u, unfolded w]
  show ?thesis
    using f by (simp add: example_env_def)
qed

section \<open>Properties of the storage module and the endpoints\<close>

text \<open>
  C2. For every byte buffer whose length is strictly greater than the configured maximum
  size, \<open>upload_avatar\<close> fails with \<open>PayloadTooLarge\<close>, status 400 (a client error), and
  the disk, the user table and the log of mutating calls are left as they were: no file
  is created. Through the endpoint, a request for an existing user with such a buffer is
  answered with status 400.
\<close>

theorem upload_rejects_oversized:
  assumes "int (length file_content) > MAX_AVATAR_SIZE (settings e)"
  shows "upload_avatar e user_id file_content u w
           = (Inl (HTTPException 400 PayloadTooLarge), w)
         \<and> (users w user_id \<noteq> None \<and> file_read file = Inr file_content \<longrightarrow>
              upload_user_avatar e user_id file u w
                = (Inl (HTTPException 400 PayloadTooLarge), w)
              \<and> http_status (fst (upload_user_avatar e user_id file u w)) = 400)"
proof -
  have v: "validate_file e file_content = Inl (HTTPException 400 PayloadTooLarge)"
    using assms by (simp add: validate_file_def)
  then have s: "upload_avatar e user_id file_content u w
                  = (Inl (HTTPException 400 PayloadTooLarge), w)"
    by (simp add: upload_avatar_def)
  have "upload_user_avatar e user_id file u w = (Inl (HTTPException 400 PayloadTooLarge), w)"
    if "users w user_id = Some user" "file_read file = Inr file_content" for user
    by (simp add: upload_user_avatar_found [OF that] s)
  with s show ?thesis by auto
qed

theorem upload_rejects_oversized_witness:
  "int (length (replicate 17 (0::byte))) > MAX_AVATAR_SIZE (settings example_env)
   \<and> upload_avatar example_env 7 (replicate 17 0) 0 example_world
       = (Inl (HTTPException 400 PayloadTooLarge), example_world)
   \<and> http_status (fst (upload_user_avatar example_env 7 (example_file (replicate 17 0)) 0
                         example_world)) = 400"
proof -
  have h: "int (length (replicate 17 (0::byte))) > MAX_AVATAR_SIZE (settings example_env)"
    by (simp add: example_env_def example_settings_def)
  have u: "users example_world 7 \<noteq> None
           \<and> file_read (example_file (replicate 17 0)) = Inr (replicate 17 0)"
    by (simp add: example_world_def example_file_def)
  show ?thesis
    using upload_rejects_oversized [OF h, of 7 0 example_world "example_file (replicate 17 0)"] h u
    by simp
qed

text \<open>
  C3, as stated: every byte buffer whose sniffed type is outside the allow-list makes the
  upload fail with \<open>UnsupportedMediaType\<close>. The size check comes first: a buffer of twenty
  bytes of text, over the limit of sixteen, fails with \<open>PayloadTooLarge\<close> instead.
\<close>

theorem unsupported_type_counterexample:
  "magic_from_buffer example_env (example_text @ example_text) = Inr ''text/plain''
   \<and> ''text/plain'' \<notin> allowed_mime_types
   \<and> upload_avatar example_env 7 (example_text @ example_text) 0 example_world
       = (Inl (HTTPException 400 PayloadTooLarge), example_world)
   \<and> PayloadTooLarge \<noteq> UnsupportedMediaType ''text/plain''"
  by (simp add: upload_avatar_def validate_file_def example_env_def example_settings_def
      example_magic_def example_text_def allowed_mime_types_def)

text \<open>
  C3, amended. For every byte buffer within the configured maximum size whose sniffed media
  type is not one of \<open>image/jpeg\<close>, \<open>image/png\<close>, \<open>image/gif\<close>, \<open>image/jpg\<close>, the upload
  fails with \<open>UnsupportedMediaType\<close>, status 400, and leaves the disk, the user table and
  the log untouched. The outcome of the endpoint does not depend on the content type or
  the file name the client declared.
\<close>

theorem upload_rejects_unsupported_type:
  assumes "int (length file_content) \<le> MAX_AVATAR_SIZE (settings e)"
    and "magic_from_buffer e file_content = Inr t"
    and "t \<notin> {''image/jpeg'', ''image/png'', ''image/gif'', ''image/jpg''}"
  shows "upload_avatar e user_id file_content u w
           = (Inl (HTTPException 400 (UnsupportedMediaType t)), w)
         \<and> upload_user_avatar e user_id (file\<lparr>content_type := ct, filename := fn\<rparr>) u w
             = upload_user_avatar e user_id file u w"
proof -
  have "validate_file e file_content = Inl (HTTPException 400 (UnsupportedMediaType t))"
    using assms by (simp add: validate_file_def allowed_mime_types_def)
  then have "upload_avatar e user_id file_content u w
               = (Inl (HTTPException 400 (UnsupportedMediaType t)), w)"
    by (simp add: upload_avatar_def)
  moreover have "upload_user_avatar e user_id (file\<lparr>content_type := ct, filename := fn\<rparr>) u w
                   = upload_user_avatar e user_id file u w"
    by (simp add: upload_user_avatar_def split: sum.splits option.splits)
  ultimately show ?thesis by simp
qed

theorem upload_rejects_unsupported_type_witness:
  "upload_avatar example_env 7 example_text 0 example_world
     = (Inl (HTTPException 400 (UnsupportedMediaType ''text/plain'')), example_world)
   \<and> upload_user_avatar example_env 7
       ((example_file example_text)\<lparr>content_type := ''text/plain'', filename := ''a.txt''\<rparr>)
       0 example_world
     = upload_user_avatar example_env 7 (example_file example_text) 0 example_world"
proof -
  have a: "int (length example_text) \<le> MAX_AVATAR_SIZE (settings example_env)"
    by (simp add: example_env_def example_settings_def example_text_def)
  have b: "magic_from_buffer example_env example_text = Inr ''text/plain''"
    by (simp add: example_env_def example_magic_def example_text_def)
  have c: "''text/plain'' \<notin> {''image/jpeg'', ''image/png'', ''image/gif'', ''image/jpg''}"
    by simp
  show ?thesis
    using upload_rejects_unsupported_type [OF a b c] by simp
qed

text \<open>
  C10. In the upload endpoint the look-up of the user and the whole validation of the
  bytes come before any change: when no user has the id, or the bytes that were read are
  over the size limit, cannot be sniffed, or are of a type outside the allow-list, the
  request fails and the state is returned as it was. No file or directory is created, no
  file is deleted, the recorded avatar path is unchanged, and no mutating call was even
  attempted. The status is 400 for bytes that fail validation; when no user has the id it
  is 404, or 500 for an id the database does not accept as a key.
\<close>

theorem upload_endpoint_checks_first:
  assumes "users w user_id = None
           \<or> (file_read file = Inr bs
               \<and> (int (length bs) > MAX_AVATAR_SIZE (settings e)
                   \<or> (\<exists>msg. magic_from_buffer e bs = Inl msg)
                   \<or> (\<exists>t. magic_from_buffer e bs = Inr t \<and> t \<notin> allowed_mime_types)))"
  shows "\<exists>err. upload_user_avatar e user_id file u w = (Inl err, w)
               \<and> http_status (Inl err)
                   = (if users w user_id \<noteq> None then 400
                      else if key_in_range e user_id then 404 else 500)"
proof (cases "users w user_id")
  case None
  then show ?thesis by (simp add: upload_user_avatar_def session_get_None)
next
  case (Some user)
  with assms have r: "file_read file = Inr bs"
    and v: "int (length bs) > MAX_AVATAR_SIZE (settings e)
            \<or> (\<exists>msg. magic_from_buffer e bs = Inl msg)
            \<or> (\<exists>t. magic_from_buffer e bs = Inr t \<and> t \<notin> allowed_mime_types)"
    by auto
  from v have "\<exists>d. validate_file e bs = Inl (HTTPException 400 d)"
    by (cases "int (length bs) > MAX_AVATAR_SIZE (settings e)")
      (auto simp: validate_file_def)
  then obtain d where "validate_file e bs = Inl (HTTPException 400 d)" ..
  then have "upload_avatar e user_id bs u w = (Inl (HTTPException 400 d), w)"
    by (simp add: upload_avatar_def)
  with Some r show ?thesis by (simp add: upload_user_avatar_found [OF Some r])
qed

theorem upload_endpoint_checks_first_witness:
  "upload_user_avatar example_env 7 (example_file example_text) 0 example_world
     = (Inl (HTTPException 400 (UnsupportedMediaType ''text/plain'')), example_world)
   \<and> upload_user_avatar example_env 99 (example_file example_png) 0 example_world
       = (Inl (HTTPException 404 UserNotFound), example_world)
   \<and> upload_user_avatar example_env (2 ^ 64) (example_file example_png) 0 example_world
       = (Inl (Uncaught DatabaseError), example_world)"
proof -
  let ?alice = "\<lparr>id' = 7, username = ''alice'', avatar_path = None\<rparr>"
  have a: "file_read (example_file example_text) = Inr example_text"
    by (simp add: example_file_def)
  have b: "magic_from_buffer example_env example_text = Inr ''text/plain''
           \<and> ''text/plain'' \<notin> allowed_mime_types"
    by (simp add: example_env_def example_magic_def example_text_def allowed_mime_types_def)
  have c: "users example_world 99 = None" "users example_world (2 ^ 64) = None"
    by (simp_all add: example_world_def)
  have k: "key_in_range example_env 99" "\<not> key_in_range example_env (2 ^ 64)"
    by (simp_all add: example_env_def)
  from a b have h1: "users example_world 7 = None
           \<or> (file_read (example_file example_text) = Inr example_text
               \<and> (int (length example_text) > MAX_AVATAR_SIZE (settings example_env)
                   \<or> (\<exists>msg. magic_from_buffer example_env example_text = Inl msg)
                   \<or> (\<exists>t. magic_from_buffer example_env example_text = Inr t
                            \<and> t \<notin> allowed_mime_types)))"
    by blast
  have h2: "users example_world k = None
           \<or> (file_read (example_file example_png) = Inr example_png
               \<and> (int (length example_png) > MAX_AVATAR_SIZE (settings example_env)
                   \<or> (\<exists>msg. magic_from_buffer example_env example_png = Inl msg)
                   \<or> (\<exists>t. magic_from_buffer example_env example_png = Inr t
                            \<and> t \<notin> allowed_mime_types)))"
    if "users example_world k = None" for k
    using that by blast
  have v: "validate_file example_env example_text
             = Inl (HTTPException 400 (UnsupportedMediaType ''text/plain''))"
    using b by (simp add: validate_file_def example_env_def example_settings_def
        example_text_def)
  have u7: "users example_world 7 = Some ?alice" by (simp add: example_world_def)
  have r7: "upload_user_avatar example_env 7 (example_file example_text) 0 example_world
              = (Inl (HTTPException 400 (UnsupportedMediaType ''text/plain'')), example_world)"
    by (simp add: upload_user_avatar_found [OF u7 a] upload_avatar_def v)
  have r99: "upload_user_avatar example_env 99 (example_file example_png) 0 example_world
               = (Inl (HTTPException 404 UserNotFound), example_world)"
    by (simp add: upload_user_avatar_def session_get_None c k)
  have r64: "upload_user_avatar example_env (2 ^ 64) (example_file example_png) 0 example_world
               = (Inl (Uncaught DatabaseError), example_world)"
    using c(2) k(2) by (simp add: upload_user_avatar_def session_get_None)
  from upload_endpoint_checks_first [OF h1, of 0]
    upload_endpoint_checks_first [OF h2 [OF c(1)], of 0]
    upload_endpoint_checks_first [OF h2 [OF c(2)], of 0]
  show ?thesis
    using r7 r99 r64 by simp
qed

text \<open>
  C7. \<open>get_avatar_url\<close> is a function of the settings and the path alone (it takes no
  state and returns a plain string, so it does no I/O and cannot fail): the result is the
  base URL, then \<open>/static/\<close>, then the path. For a path \<open>avatars/7/<id>.png\<close> it is
  \<open>{base_url}/static/avatars/7/<id>.png\<close>; and the upload of a PNG for user 7, when it
  succeeds, answers with that path and that URL.
\<close>

theorem avatar_url_composition:
  "get_avatar_url e p = BASE_URL (settings e) @ ''/static/'' @ p
   \<and> get_avatar_url e (''avatars/7/'' @ ident @ ''.png'')
       = BASE_URL (settings e) @ ''/static/avatars/7/'' @ ident @ ''.png''
   \<and> (users w 7 = Some user \<and> \<not> truthy (avatar_path user) \<and> file_read file = Inr bs
        \<and> magic_from_buffer e bs = Inr ''image/png''
        \<and> upload_avatar e 7 bs u w = (Inr p', w1)
        \<and> \<not> commit_raises e \<and> \<not> refresh_raises e \<longrightarrow>
        fst (upload_user_avatar e 7 file u w)
          = Inr (AvatarUploaded 7 (Some (''avatars/7/'' @ uuid_str u @ ''.png''))
                   (BASE_URL (settings e) @ ''/static/avatars/7/'' @ uuid_str u @ ''.png'')))"
proof -
  have a: "get_avatar_url e p = BASE_URL (settings e) @ ''/static/'' @ p" for p
    by (simp add: get_avatar_url_def)
  have c: "fst (upload_user_avatar e 7 file u w)
             = Inr (AvatarUploaded 7 (Some (''avatars/7/'' @ uuid_str u @ ''.png''))
                      (BASE_URL (settings e) @ ''/static/avatars/7/'' @ uuid_str u @ ''.png''))"
    if h: "users w 7 = Some user" "\<not> truthy (avatar_path user)" "file_read file = Inr bs"
      "magic_from_buffer e bs = Inr ''image/png''" "upload_avatar e 7 bs u w = (Inr p', w1)"
      "\<not> commit_raises e" "\<not> refresh_raises e"
  proof -
    from upload_avatar_Inr [OF h(5)] obtain m x where
      mx: "validate_file e bs = Inr m" "mime_to_ext m = Some x"
        "p' = relative_path_of e 7 u x"
      by blast
    from mx(1) h(4) have "m = ''image/png''" by (simp add: validate_file_Inr)
    with mx(2) have x: "x = ''png''" by (simp add: mime_to_ext_def)
    have p': "p' = ''avatars/7/'' @ uuid_str u @ ''.png''"
      using example_relative_path(1) [of e u] mx(3) x by simp
    show ?thesis
      using h(2,5)
      by (simp add: upload_user_avatar_found [OF h(1,3)] persist_new_path_ok [OF h(6,7)] a p')
  qed
  from a [of p] a [of "''avatars/7/'' @ ident @ ''.png''"] c show ?thesis by simp
qed

theorem avatar_url_composition_witness:
  "get_avatar_url example_env (''avatars/7/'' @ uuid_str 0 @ ''.png'')
     = ''http://127.0.0.1:8000/static/avatars/7/'' @ uuid_str 0 @ ''.png''
   \<and> fst (upload_user_avatar example_env 7 (example_file example_png) 0 example_world)
       = Inr (AvatarUploaded 7 (Some (''avatars/7/'' @ uuid_str 0 @ ''.png''))
                (''http://127.0.0.1:8000/static/avatars/7/'' @ uuid_str 0 @ ''.png''))"
proof -
  let ?alice = "\<lparr>id' = 7, username = ''alice'', avatar_path = None\<rparr>"
  have h: "users example_world 7 = Some ?alice" "\<not> truthy (avatar_path ?alice)"
    "file_read (example_file example_png) = Inr example_png"
    "magic_from_buffer example_env example_png = Inr ''image/png''"
    "\<not> commit_raises example_env" "\<not> refresh_raises example_env"
    by (simp_all add: example_world_def example_file_def example_env_def example_magic_def
        example_png_def)
  have b: "BASE_URL (settings example_env) = ''http://127.0.0.1:8000''"
    by (simp add: example_env_def example_settings_def)
  show ?thesis
    using avatar_url_composition [of example_env "''avatars/7/'' @ uuid_str 0 @ ''.png''"
        "uuid_str 0" example_world ?alice "example_file example_png" example_png 0]
      h example_upload_7 [of 0]
    by (simp add: b)
qed







text \<open>
  C4. Every successful \<open>upload_avatar(user_id, bytes)\<close>, on either host, returns exactly
  \<open>avatars/<user_id>/<random-id>.<ext>\<close>: the literal \<open>avatars\<close>, the decimal user id and the
  file name, joined by \<open>/\<close>. The path holds no backslash, neither the user id nor the file
  name holds a \<open>/\<close>, and the extension is the one the table \<open>mime_to_ext\<close> gives for the
  sniffed media type.
\<close>

theorem upload_path_shape:
  assumes "upload_avatar e user_id bs u w = (Inr p, w1)"
  shows "\<exists>m x. magic_from_buffer e bs = Inr m \<and> mime_to_ext m = Some x
           \<and> p = ''avatars/'' @ str_int user_id @ ''/'' @ uuid_str u @ ''.'' @ x
           \<and> CHR 0x5C \<notin> set p
           \<and> CHR ''/'' \<notin> set (str_int user_id)
           \<and> CHR ''/'' \<notin> set (uuid_str u @ ''.'' @ x)"
proof -
  from upload_avatar_Inr [OF assms] obtain m x where
    mx: "validate_file e bs = Inr m" "mime_to_ext m = Some x"
      "x \<in> {''jpg'', ''png'', ''gif''}" "p = relative_path_of e user_id u x"
    by blast
  from ext_plain [OF mx(3)] have px: "plain x" "x \<noteq> []" by simp_all
  have p: "p = ''avatars/'' @ str_int user_id @ ''/'' @ uuid_str u @ ''.'' @ x"
    using relative_path_shape [OF px] mx(4) by simp
  have pi: "plain (str_int user_id)" by (rule str_int_plain)
  have pf: "plain (uuid_str u @ ''.'' @ x)"
    using px(1) uuid_str_plain [of u] by (simp add: plain_def)
  have nb: "CHR 0x5C \<notin> set p"
    using pi pf unfolding p by (simp add: plain_def)
  from mx(1) have "magic_from_buffer e bs = Inr m" by (simp add: validate_file_Inr)
  with mx(2) p nb pi pf show ?thesis by (auto simp: plain_def)
qed

theorem upload_path_shape_witness:
  "fst (upload_avatar (example_env\<lparr>host := Nt\<rparr>) 7 example_png 0
          \<lparr>files = Map.empty, dirs = {}, users = Map.empty, trace = []\<rparr>)
     = Inr (''avatars/7/'' @ uuid_str 0 @ ''.png'')
   \<and> fst (upload_avatar example_env 7 example_png 0 example_world)
     = Inr (''avatars/7/'' @ uuid_str 0 @ ''.png'')"
proof -
  let ?e = "example_env\<lparr>host := Nt\<rparr>"
  let ?w = "\<lparr>files = Map.empty, dirs = {}, users = Map.empty, trace = []\<rparr>"
  have v: "validate_file ?e example_png = Inr ''image/png''"
    by (simp add: validate_file_def example_env_def example_settings_def example_magic_def
        example_png_def allowed_mime_types_def)
  have m: "mime_to_ext ''image/png'' = Some ''png''" by (simp add: mime_to_ext_def)
  have g: "magic_from_buffer ?e example_png = Inr ''image/png''"
    using v by (simp add: validate_file_Inr)
  have g': "magic_from_buffer example_env example_png = Inr ''image/png''"
    using example_validate_png by (simp add: validate_file_Inr)
  have s: "UPLOAD_DIR (settings ?e) = ''uploads'' @ ''/avatars''"
    by (simp add: example_env_def example_settings_def)
  have px: "plain ''png''" by (simp add: plain_def)
  have "\<exists>w1. upload_avatar ?e 7 example_png 0 ?w = (Inr (relative_path_of ?e 7 0 ''png''), w1)"
    using upload_avatar_success [OF v m, of 7 ?w 0] file_loc_not_dir [OF s px, of 7 0]
    by (simp add: example_env_def)
  then obtain w1 where
    up: "upload_avatar ?e 7 example_png 0 ?w = (Inr (relative_path_of ?e 7 0 ''png''), w1)" ..
  from upload_path_shape [OF up] g m
  have nt: "relative_path_of ?e 7 0 ''png'' = ''avatars/7/'' @ uuid_str 0 @ ''.png''"
    by (auto simp: str_int_7)
  from upload_path_shape [OF example_upload_7 [of 0]] g' m
  have px: "fst (upload_avatar example_env 7 example_png 0 example_world)
              = Inr (''avatars/7/'' @ uuid_str 0 @ ''.png'')"
    by (simp add: example_upload_7)
  from up nt px show ?thesis by simp
qed

text \<open>
  C8. In the upload endpoint, when the user has an avatar path on record and nothing
  exists at its location at the time the old avatar is to be deleted (that is, after the new
  file has been written), the request fails with \<open>NotFound\<close>, status 404. By then the
  directory has been made and the new file written, and nothing else was attempted: no
  file is removed and no commit is made, so the new file stays on disk with its bytes and
  the user table, hence the recorded path, is as before.
\<close>

theorem upload_with_missing_old_file:
  assumes "users w user_id = Some user" "file_read file = Inr bs"
    and "upload_avatar e user_id bs u w = (Inr p, w1)"
    and "avatar_path user = Some old" "old \<noteq> []"
    and "\<not> os_path_exists e w1 (abs_path_of e old)"
  shows "upload_user_avatar e user_id file u w = (Inl (HTTPException 404 NotFound), w1)
         \<and> users w1 = users w
         \<and> (\<exists>x. files w1 (loc e (file_path_of e user_id u x)) = Some bs
                \<and> trace w1 = trace w @ [MkDirs (user_dir_of e user_id),
                                          WriteFile (file_path_of e user_id u x)])"
proof -
  have d: "delete_avatar e old w1 = (Inl (HTTPException 404 NotFound), w1)"
    using assms(6) by (simp add: delete_avatar_unfold)
  have r: "upload_user_avatar e user_id file u w = (Inl (HTTPException 404 NotFound), w1)"
    using assms(3-5) d by (simp add: upload_user_avatar_found [OF assms(1,2)])
  from upload_avatar_Inr [OF assms(3)] obtain x where
    "w1 = w\<lparr>trace := trace w @ [MkDirs (user_dir_of e user_id),
                                  WriteFile (file_path_of e user_id u x)],
             dirs := insert (loc e (user_dir_of e user_id)) (dirs w),
             files := (files w)(loc e (file_path_of e user_id u x) \<mapsto> bs)\<rparr>"
    by blast
  then have "users w1 = users w \<and> files w1 (loc e (file_path_of e user_id u x)) = Some bs
             \<and> trace w1 = trace w @ [MkDirs (user_dir_of e user_id),
                                       WriteFile (file_path_of e user_id u x)]"
    by simp
  with r show ?thesis by blast
qed

theorem upload_with_missing_old_file_witness:
  "upload_user_avatar example_env 8 (example_file example_png) 0
       (example_world\<lparr>files := Map.empty\<rparr>)
     = (Inl (HTTPException 404 NotFound),
        example_world\<lparr>trace := [MkDirs ''uploads/avatars/8'',
                                 WriteFile (''uploads/avatars/8/'' @ uuid_str 0 @ ''.png'')],
          dirs := insert (False, [''uploads'', ''avatars'', ''8'']) (dirs example_world),
          files := [(False, [''uploads'', ''avatars'', ''8'', uuid_str 0 @ ''.png''])
                      \<mapsto> example_png]\<rparr>)"
proof -
  let ?w = "example_world\<lparr>files := Map.empty\<rparr>"
  let ?bob = "\<lparr>id' = 8, username = ''bob'', avatar_path = Some ''avatars/8/old.png''\<rparr>"
  let ?fp = "''uploads/avatars/8/'' @ uuid_str 0 @ ''.png''"
  let ?w1 = "example_world\<lparr>trace := [MkDirs ''uploads/avatars/8'', WriteFile ?fp],
          dirs := insert (False, [''uploads'', ''avatars'', ''8'']) (dirs example_world),
          files := [(False, [''uploads'', ''avatars'', ''8'', uuid_str 0 @ ''.png''])
                      \<mapsto> example_png]\<rparr>"
  have h: "host example_env = Posix" by (simp add: example_env_def)
  have up: "upload_avatar example_env 8 example_png 0 ?w
              = (Inr (''avatars/8/'' @ uuid_str 0 @ ''.png''), ?w1)"
    using example_upload [of 8 "''8''" Map.empty example_env 0]
    by (simp add: example_env_def)
  have u: "users ?w 8 = Some ?bob" by (simp add: example_world_def)
  have f: "file_read (example_file example_png) = Inr example_png"
    by (simp add: example_file_def)
  have p: "abs_path_of example_env ''avatars/8/old.png'' = ''uploads/avatars/8/old.png''"
    using example_abs_path [of "''8/old.png''"] by simp
  have lp: "loc example_env ''uploads/avatars/8/old.png''
              = (False, [''uploads'', ''avatars'', ''8'', ''old.png''])"
    by (simp add: loc_def location_def h pieces_def seps_def)
  have a: "\<not> os_path_exists example_env ?w1 (abs_path_of example_env ''avatars/8/old.png'')"
    unfolding p os_path_exists_def lp
    using file_name_not_old [of 0] by (simp add: example_world_def)
  show ?thesis
    using upload_with_missing_old_file [OF u f up _ _ a] by simp
qed

text \<open>
  C9. \<open>delete_avatar\<close> takes as its root the upload directory with every "avatars" replaced
  by nothing and joins the relative path onto it. For an upload directory \<open><root>/avatars\<close>
  whose \<open><root>\<close> does not contain "avatars", on either host, that root is \<open><root>/\<close>, and for
  the path a successful upload returned the location \<open>delete_avatar\<close> resolves is the
  location of the very file the upload wrote (on a POSIX host the two path strings are
  equal). Unless the removal itself raises, deleting that path succeeds and removes this
  file and no other: the files are then those from before the upload, without that one.
\<close>

theorem delete_after_upload_roundtrip:
  assumes "UPLOAD_DIR (settings e) = root @ ''/avatars''"
    and "\<not> occurs ''avatars'' root"
    and "upload_avatar e user_id bs u w = (Inr p, w1)"
  shows "str_replace ''avatars'' [] (UPLOAD_DIR (settings e)) = root @ ''/''
         \<and> abs_path_of e p = os_path_join (host e) (root @ ''/'') [p]
         \<and> (\<exists>x. loc e (abs_path_of e p) = loc e (file_path_of e user_id u x)
                \<and> files w1 = (files w)(loc e (file_path_of e user_id u x) \<mapsto> bs)
                \<and> (host e = Posix \<longrightarrow>
                     abs_path_of e p = file_path_of e user_id u x
                     \<and> file_path_of e user_id u x
                         = root @ ''/avatars/'' @ str_int user_id @ ''/''
                             @ uuid_str u @ ''.'' @ x))
         \<and> files w1 (loc e (abs_path_of e p)) = Some bs
         \<and> (\<not> remove_raises e (abs_path_of e p) \<longrightarrow>
              delete_avatar e p w1
                = (Inr (), w1\<lparr>trace := trace w1 @ [RemoveFile (abs_path_of e p)],
                               files := (files w)(loc e (abs_path_of e p) := None)\<rparr>))"
proof -
  have root: "str_replace ''avatars'' [] (UPLOAD_DIR (settings e)) = root @ ''/''"
    by (rule replaced_upload_dir [OF assms(1,2)])
  have ab: "abs_path_of e p = os_path_join (host e) (root @ ''/'') [p]"
    by (simp add: abs_path_of_def root)
  from upload_avatar_Inr [OF assms(3)] obtain x where
    mx: "x \<in> {''jpg'', ''png'', ''gif''}" "p = relative_path_of e user_id u x"
      "w1 = w\<lparr>trace := trace w @ [MkDirs (user_dir_of e user_id),
                                    WriteFile (file_path_of e user_id u x)],
               dirs := insert (loc e (user_dir_of e user_id)) (dirs w),
               files := (files w)(loc e (file_path_of e user_id u x) \<mapsto> bs)\<rparr>"
    by blast
  from ext_plain [OF mx(1)] have px: "plain x" "x \<noteq> []" by simp_all
  let ?fp = "file_path_of e user_id u x"
  have same: "loc e (abs_path_of e p) = loc e ?fp"
    unfolding mx(2) by (rule same_location [OF assms(1,2) px])
  have fw: "files w1 = (files w)(loc e ?fp \<mapsto> bs)"
    by (simp add: mx(3))
  have posix: "abs_path_of e p = ?fp
               \<and> ?fp = root @ ''/avatars/'' @ str_int user_id @ ''/'' @ uuid_str u @ ''.'' @ x"
    if h: "host e = Posix"
  proof -
    have p: "p = ''avatars/'' @ (str_int user_id @ ''/'' @ uuid_str u @ ''.'' @ x)"
      using relative_path_shape [OF px, of e user_id u] mx(2) by simp
    from abs_path_layout [OF assms(1,2), of "str_int user_id @ ''/'' @ uuid_str u @ ''.'' @ x"] h
    have a: "abs_path_of e p
               = root @ ''/avatars/'' @ str_int user_id @ ''/'' @ uuid_str u @ ''.'' @ x"
      unfolding p by auto
    from file_path_layout [OF assms(1) px(1), of user_id u] h
    have f: "?fp = root @ ''/avatars/'' @ str_int user_id @ ''/'' @ uuid_str u @ ''.'' @ x"
      by auto
    from a f show ?thesis by simp
  qed
  have f1: "files w1 (loc e (abs_path_of e p)) = Some bs"
    by (simp add: same fw)
  have del: "delete_avatar e p w1
               = (Inr (), w1\<lparr>trace := trace w1 @ [RemoveFile (abs_path_of e p)],
                              files := (files w)(loc e (abs_path_of e p) := None)\<rparr>)"
    if "\<not> remove_raises e (abs_path_of e p)"
  proof -
    have "(files w1)(loc e (abs_path_of e p) := None)
            = (files w)(loc e (abs_path_of e p) := None)"
      by (simp add: same fw)
    with that f1 show ?thesis
      by (simp add: delete_avatar_unfold os_path_exists_def)
  qed
  from root ab same fw posix f1 del show ?thesis by blast
qed

theorem delete_after_upload_roundtrip_witness:
  "\<not> occurs ''avatars'' ''uploads''
   \<and> abs_path_of example_env (''avatars/7/'' @ uuid_str 0 @ ''.png'')
       = ''uploads/avatars/7/'' @ uuid_str 0 @ ''.png''
   \<and> files (snd (upload_avatar example_env 7 example_png 0 example_world))
        (loc example_env (abs_path_of example_env (''avatars/7/'' @ uuid_str 0 @ ''.png'')))
       = Some example_png
   \<and> fst (delete_avatar example_env (''avatars/7/'' @ uuid_str 0 @ ''.png'')
            (snd (upload_avatar example_env 7 example_png 0 example_world))) = Inr ()
   \<and> files (snd (delete_avatar example_env (''avatars/7/'' @ uuid_str 0 @ ''.png'')
                   (snd (upload_avatar example_env 7 example_png 0 example_world))))
       = files example_world
   \<and> (\<exists>w1. upload_avatar (example_env\<lparr>host := Nt\<rparr>) 7 example_png 0
               \<lparr>files = Map.empty, dirs = {}, users = Map.empty, trace = []\<rparr>
             = (Inr (''avatars/7/'' @ uuid_str 0 @ ''.png''), w1)
           \<and> files (snd (delete_avatar (example_env\<lparr>host := Nt\<rparr>)
                           (''avatars/7/'' @ uuid_str 0 @ ''.png'') w1)) = Map.empty)"
proof -
  let ?p = "''avatars/7/'' @ uuid_str 0 @ ''.png''"
  let ?w1 = "snd (upload_avatar example_env 7 example_png 0 example_world)"
  let ?l = "loc example_env (abs_path_of example_env ?p)"
  have h: "UPLOAD_DIR (settings example_env) = ''uploads'' @ ''/avatars''"
    by (simp add: example_env_def example_settings_def)
  have o: "\<not> occurs ''avatars'' ''uploads''" by simp
  have r: "\<not> remove_raises example_env (abs_path_of example_env ?p)"
    by (simp add: example_env_def)
  have a: "abs_path_of example_env ?p = ''uploads/avatars/7/'' @ uuid_str 0 @ ''.png''"
    using example_abs_path [of "''7/'' @ uuid_str 0 @ ''.png''"] by simp
  have l: "?l = (False, [''uploads'', ''avatars'', ''7'', uuid_str 0 @ ''.png''])"
    unfolding a using example_file_loc [OF component_7 component_png, of 0] by simp
  have up: "upload_avatar example_env 7 example_png 0 example_world = (Inr ?p, ?w1)"
    by (simp add: example_upload_7)
  note T = delete_after_upload_roundtrip [OF h o up]
  from T r have d: "delete_avatar example_env ?p ?w1
      = (Inr (), ?w1\<lparr>trace := trace ?w1 @ [RemoveFile (abs_path_of example_env ?p)],
                     files := (files example_world)(?l := None)\<rparr>)"
    by blast
  from T have s: "files ?w1 ?l = Some example_png" by blast
  have n: "(files example_world)(?l := None) = files example_world"
    unfolding l using file_name_not_old [of 0] by (auto simp: example_world_def)
  have d1: "fst (delete_avatar example_env ?p ?w1) = Inr ()"
    and d2: "files (snd (delete_avatar example_env ?p ?w1)) = files example_world"
    unfolding d n by simp_all
  let ?e = "example_env\<lparr>host := Nt\<rparr>"
  let ?w = "\<lparr>files = Map.empty, dirs = {}, users = Map.empty, trace = []\<rparr>"
  have nt: "\<exists>w1. upload_avatar ?e 7 example_png 0 ?w = (Inr ?p, w1)
                 \<and> files (snd (delete_avatar ?e ?p w1)) = Map.empty"
  proof -
    have v: "validate_file ?e example_png = Inr ''image/png''"
      by (simp add: validate_file_def example_env_def example_settings_def example_magic_def
          example_png_def allowed_mime_types_def)
    have m: "mime_to_ext ''image/png'' = Some ''png''" by (simp add: mime_to_ext_def)
    have s: "UPLOAD_DIR (settings ?e) = ''uploads'' @ ''/avatars''"
      by (simp add: example_env_def example_settings_def)
    have px: "plain ''png''" by (simp add: plain_def)
    have "\<exists>w1. upload_avatar ?e 7 example_png 0 ?w = (Inr (relative_path_of ?e 7 0 ''png''), w1)"
      using upload_avatar_success [OF v m, of 7 ?w 0] file_loc_not_dir [OF s px, of 7 0]
      by (simp add: example_env_def)
    then obtain w1 where
      up: "upload_avatar ?e 7 example_png 0 ?w = (Inr ?p, w1)"
      unfolding example_relative_path(1) ..
    have nr: "\<not> remove_raises ?e (abs_path_of ?e ?p)" by (simp add: example_env_def)
    from delete_after_upload_roundtrip [OF s o up] nr
    have "delete_avatar ?e ?p w1
            = (Inr (), w1\<lparr>trace := trace w1 @ [RemoveFile (abs_path_of ?e ?p)],
                          files := (files ?w)(loc ?e (abs_path_of ?e ?p) := None)\<rparr>)"
      by blast
    then have "files (snd (delete_avatar ?e ?p w1)) = Map.empty" by simp
    with up show ?thesis by blast
  qed
  from o a s d1 d2 nt show ?thesis by blast
qed

section \<open>The replace protocol of the upload endpoint\<close>

lemma upload_avatar_env:
  assumes "host e' = host e" "settings e' = settings e"
    and "magic_from_buffer e' = magic_from_buffer e"
    and "makedirs_raises e' = makedirs_raises e" "open_raises e' = open_raises e"
    and "write_raises e' = write_raises e"
  shows "upload_avatar e' user_id bs u w = upload_avatar e user_id bs u w"
  using assms
  by (simp add: upload_avatar_def validate_file_def os_makedirs_def open_write_def Let_def
      loc_def split: sum.splits option.splits)

text \<open>
  C1. The upload endpoint writes the new file, then removes the old one, then commits the
  new path; when the commit raises, the handler at lines 91 to 93 of main.py is meant to
  remove the new file and then raise the persistence error. The removal at line 92 goes
  through \<open>delete_avatar\<close> with no guard of its own, so when that call fails its error is
  what the caller gets and the new file stays on disk. Two deployments where user 7
  uploads a PNG and the commit raises:
  \<^item> the upload directory is \<open>data\<close>: the file is written to \<open>data/7/<uuid>.png\<close>, but
    \<open>delete_avatar\<close> looks for \<open>data/avatars/7/<uuid>.png\<close>; the caller gets \<open>NotFound\<close>,
    status 404, and the file stays;
  \<^item> the example deployment, where also \<open>os.remove\<close> raises: the caller gets
    \<open>DeleteFailure\<close>, and the file stays.
  In both the calls were made in the order of the protocol, the user table is unchanged,
  and \<open>PersistenceFailure\<close> is never raised.
\<close>

theorem cleanup_failure_masks_persistence_error:
  "upload_user_avatar
     (example_env\<lparr>settings := example_settings\<lparr>UPLOAD_DIR := ''data''\<rparr>,
                  commit_raises := True\<rparr>)
     7 (example_file example_png) u example_world
   = (Inl (HTTPException 404 NotFound),
      example_world\<lparr>trace := [MkDirs ''data/7'',
                               WriteFile (''data/7/'' @ uuid_str u @ ''.png''),
                               Commit 7 (Some (''avatars/7/'' @ uuid_str u @ ''.png''))],
        dirs := insert (False, [''data'', ''7'']) (dirs example_world),
        files := (files example_world)
                   ((False, [''data'', ''7'', uuid_str u @ ''.png'']) \<mapsto> example_png)\<rparr>)
   \<and> upload_user_avatar
       (example_env\<lparr>commit_raises := True, remove_raises := (\<lambda>p. True)\<rparr>)
       7 (example_file example_png) u example_world
     = (Inl (HTTPException 500 DeleteFailure),
        example_world\<lparr>trace := [MkDirs ''uploads/avatars/7'',
                                 WriteFile (''uploads/avatars/7/'' @ uuid_str u @ ''.png''),
                                 Commit 7 (Some (''avatars/7/'' @ uuid_str u @ ''.png'')),
                                 RemoveFile (''uploads/avatars/7/'' @ uuid_str u @ ''.png'')],
          dirs := insert (False, [''uploads'', ''avatars'', ''7'']) (dirs example_world),
          files := (files example_world)
                     ((False, [''uploads'', ''avatars'', ''7'', uuid_str u @ ''.png''])
                        \<mapsto> example_png)\<rparr>)"
proof -
  define f where "f = uuid_str u @ ''.png''"
  define p where "p = ''avatars/7/'' @ f"
  define alice where "alice = \<lparr>id' = 7, username = ''alice'', avatar_path = None\<rparr>"
  have cf: "component f" unfolding f_def by (rule component_png)
  have u: "users example_world 7 = Some alice" by (simp add: example_world_def alice_def)
  have na: "\<not> truthy (avatar_path alice)" by (simp add: alice_def)
  have r: "file_read (example_file example_png) = Inr example_png"
    by (simp add: example_file_def)
  have t: "trace example_world = []" by (simp add: example_world_def)
  have sl: "CHR ''/'' \<in> seps Posix" by (rule slash_sep)
  have cd: "component ''data''" and ca: "component ''avatars''"
    by (simp_all add: component_def plain_def)
  have one: "upload_user_avatar
     (example_env\<lparr>settings := example_settings\<lparr>UPLOAD_DIR := ''data''\<rparr>,
                  commit_raises := True\<rparr>)
     7 (example_file example_png) u example_world
   = (Inl (HTTPException 404 NotFound),
      example_world\<lparr>trace := [MkDirs ''data/7'', WriteFile (''data/7/'' @ f),
                               Commit 7 (Some p)],
        dirs := insert (False, [''data'', ''7'']) (dirs example_world),
        files := (files example_world)((False, [''data'', ''7'', f]) \<mapsto> example_png)\<rparr>)"
  proof -
    define e where "e = example_env\<lparr>settings := example_settings\<lparr>UPLOAD_DIR := ''data''\<rparr>,
                                    commit_raises := True\<rparr>"
    have h: "host e = Posix" and c: "commit_raises e"
      by (simp_all add: e_def example_env_def)
    have ud: "user_dir_of e 7 = ''data/7''"
      by (simp add: user_dir_of_def e_def example_env_def example_settings_def
          os_path_join_def str_int_7)
    have fp: "file_path_of e 7 u ''png'' = ''data/7/'' @ f"
      using file_name_start [of u "''png''"]
      by (simp add: file_path_of_def ud h os_path_join_def f_def)
    have rp: "relative_path_of e 7 u ''png'' = p"
      by (simp add: example_relative_path p_def f_def)
    have ab: "abs_path_of e p = ''data/avatars/7/'' @ f"
      by (simp add: abs_path_of_def e_def example_env_def example_settings_def
          str_replace_def os_path_join_def p_def)
    have lu: "loc e ''data/7'' = (False, [''data'', ''7''])"
      by (simp add: loc_def location_def h pieces_def seps_def)
    have pf: "pieces Posix (''data/7/'' @ f) = [''data'', ''7'', f]"
    proof -
      have "''data/7/'' @ f = ''data'' @ CHR ''/'' # (''7'' @ CHR ''/'' # f)" by simp
      then show ?thesis
        by (simp only: pieces_cons [OF cd sl] pieces_cons [OF component_7 sl]
            pieces_component [OF cf])
    qed
    have pa: "pieces Posix (''data/avatars/7/'' @ f) = [''data'', ''avatars'', ''7'', f]"
    proof -
      have "''data/avatars/7/'' @ f
              = ''data'' @ CHR ''/'' # (''avatars'' @ CHR ''/'' # (''7'' @ CHR ''/'' # f))"
        by simp
      then show ?thesis
        by (simp only: pieces_cons [OF cd sl] pieces_cons [OF ca sl]
            pieces_cons [OF component_7 sl] pieces_component [OF cf])
    qed
    have nd: "''..'' \<notin> set [''data'', ''7'', f]" "''..'' \<notin> set [''data'', ''avatars'', ''7'', f]"
      using cf by (auto simp: component_def)
    have lf: "loc e (''data/7/'' @ f) = (False, [''data'', ''7'', f])"
      unfolding loc_def location_def h Let_def host_os.case pf dotdot_none [OF nd(1)]
      by (simp add: seps_def)
    have la: "loc e (''data/avatars/7/'' @ f) = (False, [''data'', ''avatars'', ''7'', f])"
      unfolding loc_def location_def h Let_def host_os.case pa dotdot_none [OF nd(2)]
      by (simp add: seps_def)
    define w1 where
      "w1 = example_world\<lparr>trace := [MkDirs ''data/7'', WriteFile (''data/7/'' @ f)],
              dirs := insert (False, [''data'', ''7'']) (dirs example_world),
              files := (files example_world)((False, [''data'', ''7'', f]) \<mapsto> example_png)\<rparr>"
    have v: "validate_file e example_png = Inr ''image/png''"
      by (simp add: validate_file_def e_def example_env_def example_settings_def
          example_magic_def example_png_def allowed_mime_types_def)
    have "upload_avatar e 7 example_png u example_world =
       (Inr (relative_path_of e 7 u ''png''),
        example_world\<lparr>trace := trace example_world @ [MkDirs (user_dir_of e 7),
                                 WriteFile (file_path_of e 7 u ''png'')],
          dirs := insert (loc e (user_dir_of e 7)) (dirs example_world),
          files := (files example_world)(loc e (file_path_of e 7 u ''png'') \<mapsto> example_png)\<rparr>)"
    proof (rule upload_avatar_success [OF v])
      show "mime_to_ext ''image/png'' = Some ''png''" by (simp add: mime_to_ext_def)
      show "\<not> makedirs_raises e (user_dir_of e 7)" by (simp add: e_def example_env_def)
      show "files example_world (loc e (user_dir_of e 7)) = None"
        unfolding ud lu by (simp add: example_world_def)
      show "\<not> open_raises e (file_path_of e 7 u ''png'')" by (simp add: e_def example_env_def)
      show "loc e (file_path_of e 7 u ''png'')
              \<notin> insert (loc e (user_dir_of e 7)) (dirs example_world)"
        unfolding ud fp lu lf by (simp add: example_world_def)
      show "write_raises e (file_path_of e 7 u ''png'') = None"
        by (simp add: e_def example_env_def)
    qed
    then have up: "upload_avatar e 7 example_png u example_world = (Inr p, w1)"
      unfolding rp ud fp lu lf t w1_def by simp
    define w3 where "w3 = w1\<lparr>trace := trace w1 @ [Commit 7 (Some p)]\<rparr>"
    have ne: "\<not> os_path_exists e w3 (abs_path_of e p)"
      unfolding ab os_path_exists_def la
      by (simp add: w3_def w1_def example_world_def)
    have d: "delete_avatar e p w3 = (Inl (HTTPException 404 NotFound), w3)"
      using ne by (simp add: delete_avatar_unfold)
    have ps: "persist_new_path e 7 alice p w1 = (Inl (HTTPException 404 NotFound), w3)"
      using c d by (simp add: persist_new_path_raises w3_def)
    have "upload_user_avatar e 7 (example_file example_png) u example_world
            = (Inl (HTTPException 404 NotFound), w3)"
      by (simp add: upload_user_avatar_found [OF u r] up ps na)
    then show ?thesis
      unfolding e_def w3_def w1_def by simp
  qed
  have two: "upload_user_avatar
       (example_env\<lparr>commit_raises := True, remove_raises := (\<lambda>p. True)\<rparr>)
       7 (example_file example_png) u example_world
     = (Inl (HTTPException 500 DeleteFailure),
        example_world\<lparr>trace := [MkDirs ''uploads/avatars/7'',
                                 WriteFile (''uploads/avatars/7/'' @ f),
                                 Commit 7 (Some p), RemoveFile (''uploads/avatars/7/'' @ f)],
          dirs := insert (False, [''uploads'', ''avatars'', ''7'']) (dirs example_world),
          files := (files example_world)
                     ((False, [''uploads'', ''avatars'', ''7'', f]) \<mapsto> example_png)\<rparr>)"
  proof -
    define e where "e = example_env\<lparr>commit_raises := True, remove_raises := (\<lambda>p. True)\<rparr>"
    define fp where "fp = ''uploads/avatars/7/'' @ f"
    define w1 where
      "w1 = example_world\<lparr>trace := [MkDirs ''uploads/avatars/7'', WriteFile fp],
              dirs := insert (False, [''uploads'', ''avatars'', ''7'']) (dirs example_world),
              files := (files example_world)
                         ((False, [''uploads'', ''avatars'', ''7'', f]) \<mapsto> example_png)\<rparr>"
    have c: "commit_raises e" and rr: "remove_raises e fp"
      by (simp_all add: e_def)
    have up0: "upload_avatar example_env 7 example_png u example_world = (Inr p, w1)"
      by (simp add: example_upload_7 p_def f_def fp_def w1_def)
    have up: "upload_avatar e 7 example_png u example_world = (Inr p, w1)"
      using up0 upload_avatar_env [of e example_env 7 example_png u example_world]
      by (simp add: e_def)
    have "abs_path_of e p = abs_path_of example_env p"
      by (simp add: abs_path_of_def e_def)
    also have "\<dots> = fp"
      using example_abs_path [of "''7/'' @ f"] by (simp add: p_def fp_def)
    finally have a: "abs_path_of e p = fp" .
    have "loc e fp = loc example_env fp" by (simp add: loc_def e_def)
    also have "\<dots> = (False, [''uploads'', ''avatars'', ''7'', f])"
      using example_file_loc [OF component_7 cf] by (simp add: fp_def)
    finally have l: "loc e fp = (False, [''uploads'', ''avatars'', ''7'', f])" .
    define w3 where "w3 = w1\<lparr>trace := trace w1 @ [Commit 7 (Some p)]\<rparr>"
    have f3: "files w3 (loc e fp) = Some example_png"
      unfolding l by (simp add: w3_def w1_def)
    have d: "delete_avatar e p w3
               = (Inl (HTTPException 500 DeleteFailure),
                  w3\<lparr>trace := trace w3 @ [RemoveFile fp]\<rparr>)"
      by (simp add: delete_avatar_unfold a os_path_exists_def f3 rr)
    have ps: "persist_new_path e 7 alice p w1
                = (Inl (HTTPException 500 DeleteFailure),
                   w3\<lparr>trace := trace w3 @ [RemoveFile fp]\<rparr>)"
      using c d by (simp add: persist_new_path_raises w3_def)
    have "upload_user_avatar e 7 (example_file example_png) u example_world
            = (Inl (HTTPException 500 DeleteFailure), w3\<lparr>trace := trace w3 @ [RemoveFile fp]\<rparr>)"
      by (simp add: upload_user_avatar_found [OF u r] up ps na)
    then show ?thesis
      unfolding e_def w3_def w1_def fp_def by simp
  qed
  from one two show ?thesis
    unfolding p_def f_def by blast
qed

theorem cleanup_failure_masks_persistence_error_witness:
  "http_status (fst (upload_user_avatar
     (example_env\<lparr>settings := example_settings\<lparr>UPLOAD_DIR := ''data''\<rparr>,
                  commit_raises := True\<rparr>)
     7 (example_file example_png) 0x0123456789AB4CDE8F0123456789ABCD example_world)) = 404
   \<and> files (snd (upload_user_avatar
       (example_env\<lparr>settings := example_settings\<lparr>UPLOAD_DIR := ''data''\<rparr>,
                    commit_raises := True\<rparr>)
       7 (example_file example_png) 0x0123456789AB4CDE8F0123456789ABCD example_world))
       (False, [''data'', ''7'', uuid_str 0x0123456789AB4CDE8F0123456789ABCD @ ''.png''])
     = Some example_png
   \<and> users (snd (upload_user_avatar
       (example_env\<lparr>settings := example_settings\<lparr>UPLOAD_DIR := ''data''\<rparr>,
                    commit_raises := True\<rparr>)
       7 (example_file example_png) 0x0123456789AB4CDE8F0123456789ABCD example_world)) = users example_world
   \<and> fst (upload_user_avatar
       (example_env\<lparr>commit_raises := True, remove_raises := (\<lambda>p. True)\<rparr>)
       7 (example_file example_png) 0x0123456789AB4CDE8F0123456789ABCD example_world)
       \<noteq> Inl (HTTPException 500 PersistenceFailure)
   \<and> files (snd (upload_user_avatar
       (example_env\<lparr>commit_raises := True, remove_raises := (\<lambda>p. True)\<rparr>)
       7 (example_file example_png) 0x0123456789AB4CDE8F0123456789ABCD example_world))
       (False, [''uploads'', ''avatars'', ''7'',
                uuid_str 0x0123456789AB4CDE8F0123456789ABCD @ ''.png''])
     = Some example_png"
proof -
  note T = cleanup_failure_masks_persistence_error [of "0x0123456789AB4CDE8F0123456789ABCD"]
  show ?thesis
    unfolding T [THEN conjunct1] T [THEN conjunct2] by simp
qed

end
